theory Spec2Isabelle
  imports Main "HOL-Library.Word"
begin

section \<open>Liveliness tokens of rmw\_zenoh: key expressions of graph entities\<close>

text \<open>
  The development follows the implementation of the namespace \<^verbatim>\<open>liveliness\<close>, the
  source file that includes \<^verbatim>\<open>liveliness_utils.hpp\<close>.
  A \<^verbatim>\<open>std::string\<close> is a \<^typ>\<open>string\<close>, that is a list of bytes, which may hold
  the NUL character. \<^verbatim>\<open>size_t\<close> and \<^verbatim>\<open>unsigned long\<close> are 64-bit words (LP64).
  An exception that leaves a function is the left summand of its result, an empty
  \<^verbatim>\<open>std::optional\<close> is \<^const>\<open>None\<close>. Logging and the thread-local rmw error message
  are not part of the model.
\<close>

subsection \<open>Constants\<close>

definition ADMIN_SPACE :: string where
  "ADMIN_SPACE = ''@ros2_lv''"

definition NODE_STR :: string where
  "NODE_STR = ''NN''"

definition PUB_STR :: string where
  "PUB_STR = ''MP''"

definition SUB_STR :: string where
  "SUB_STR = ''MS''"

definition SRV_STR :: string where
  "SRV_STR = ''SS''"

definition CLI_STR :: string where
  "CLI_STR = ''SC''"

definition SLASH_REPLACEMENT :: char where
  "SLASH_REPLACEMENT = CHR ''%''"

definition QOS_DELIMITER :: char where
  "QOS_DELIMITER = CHR '':''"

definition QOS_HISTORY_DELIMITER :: char where
  "QOS_HISTORY_DELIMITER = CHR '',''"

subsection \<open>Name mangling\<close>

text \<open>
  Both loops run over the indices of the input and append one character per step, so
  each is a recursion over the characters of the input.
\<close>

primrec mangle_name :: "string \<Rightarrow> string" where
  "mangle_name [] = []"
| "mangle_name (c # cs) =
     (if c = CHR ''/'' then SLASH_REPLACEMENT else c) # mangle_name cs"

primrec demangle_name :: "string \<Rightarrow> string" where
  "demangle_name [] = []"
| "demangle_name (c # cs) =
     (if c = SLASH_REPLACEMENT then CHR ''/'' else c) # demangle_name cs"

subsection \<open>Splitting a key expression\<close>

text \<open>
  \<^verbatim>\<open>std::string::find(ch, pos)\<close>: the index of the first occurrence of \<open>ch\<close> at or
  after \<open>pos\<close>, or \<^const>\<open>None\<close> for \<^verbatim>\<open>npos\<close>.
\<close>

primrec find_char :: "char \<Rightarrow> string \<Rightarrow> nat option" where
  "find_char d [] = None"
| "find_char d (c # cs) = (if c = d then Some 0 else map_option Suc (find_char d cs))"

definition str_find :: "string \<Rightarrow> char \<Rightarrow> nat \<Rightarrow> nat option" where
  "str_find s d pos = map_option (\<lambda>k. pos + k) (find_char d (drop pos s))"

text \<open>
  \<^verbatim>\<open>substr(pos, n)\<close> for \<open>pos\<close> up to the length of the string; the loop below never
  calls it beyond, since \<open>start\<close> is 0 or one past a delimiter that was found.
\<close>

definition substr :: "string \<Rightarrow> nat \<Rightarrow> nat \<Rightarrow> string" where
  "substr s pos n = take n (drop pos s)"

lemma find_char_Some:
  "find_char d s = Some k \<Longrightarrow> k < length s \<and> s ! k = d \<and> d \<notin> set (take k s)"
  by (induction s arbitrary: k) (auto split: if_splits)

lemma find_char_None: "find_char d s = None \<longleftrightarrow> d \<notin> set s"
  by (induction s) auto

lemma str_find_bounds: "str_find s d pos = Some e \<Longrightarrow> pos \<le> e \<and> e < length s"
  by (auto simp: str_find_def dest!: find_char_Some)

text \<open>
  The \<^verbatim>\<open>while\<close> loop of \<^verbatim>\<open>split_keyexpr\<close>; \<open>end\<close> is recomputed from \<open>start\<close> at the
  head of each round, as the source does at the end of the previous one.
\<close>

function split_loop :: "string \<Rightarrow> char \<Rightarrow> nat \<Rightarrow> string list \<Rightarrow> string list" where
  "split_loop keyexpr delim start result =
     (case str_find keyexpr delim start of
        None \<Rightarrow> result @ [drop start keyexpr]
      | Some e \<Rightarrow>
          split_loop keyexpr delim (e + 1) (result @ [substr keyexpr start (e - start)]))"
  by pat_completeness auto
termination
  by (relation "measure (\<lambda>(keyexpr, delim, start, result). length keyexpr - start)")
    (auto dest: str_find_bounds)

declare split_loop.simps [simp del]

definition split_keyexpr :: "string \<Rightarrow> char \<Rightarrow> string list" where
  "split_keyexpr keyexpr delim = split_loop keyexpr delim 0 []"

subsection \<open>Decimal numerals: \<^verbatim>\<open>std::to_string\<close>, \<^verbatim>\<open>strtoul\<close>, \<^verbatim>\<open>std::stoul\<close>\<close>

definition digit_char :: "nat \<Rightarrow> char" where
  "digit_char d = char_of (48 + d)"

text \<open>\<^verbatim>\<open>std::to_string\<close> of an unsigned value, and the stream output of a \<^verbatim>\<open>size_t\<close>.\<close>

fun to_string_nat :: "nat \<Rightarrow> string" where
  "to_string_nat n =
     (if n < 10 then [digit_char n] else to_string_nat (n div 10) @ [digit_char (n mod 10)])"

declare to_string_nat.simps [simp del]

text \<open>\<^verbatim>\<open>std::to_string\<close> of an enumerator, which is promoted to \<^verbatim>\<open>int\<close>.\<close>

definition to_string_int :: "int \<Rightarrow> string" where
  "to_string_int i = (if i < 0 then CHR ''-'' # to_string_nat (nat (- i)) else to_string_nat (nat i))"

text \<open>\<^verbatim>\<open>c_str()\<close> as a C function reads it: the characters before the first NUL.\<close>

definition c_str :: "string \<Rightarrow> string" where
  "c_str s = takeWhile (\<lambda>c. c \<noteq> CHR 0x00) s"

definition isspace :: "char \<Rightarrow> bool" where
  "isspace c \<longleftrightarrow> c \<in> {CHR '' '', CHR 0x09, CHR 0x0A, CHR 0x0B, CHR 0x0C, CHR 0x0D}"

definition isdigit :: "char \<Rightarrow> bool" where
  "isdigit c \<longleftrightarrow> c \<in> set ''0123456789''"

definition digit_value :: "char \<Rightarrow> int" where
  "digit_value c = of_char c - 48"

definition digits_value :: "string \<Rightarrow> int" where
  "digits_value ds = foldl (\<lambda>acc c. acc * 10 + digit_value c) 0 ds"

definition ULONG_MAX :: int where
  "ULONG_MAX = 2 ^ 64 - 1"

text \<open>
  \<^verbatim>\<open>strtoul(nptr, &endptr, 10)\<close> of the C library on the characters of a C string:
  white space, an optional sign, then the longest run of decimal digits. The result is
  the value, the offset of \<open>endptr\<close> from \<open>nptr\<close> (0 when nothing was converted) and
  whether \<^verbatim>\<open>errno\<close> was set to \<^verbatim>\<open>ERANGE\<close>. A value with a minus sign is negated in
  \<^verbatim>\<open>unsigned long\<close>.
\<close>

definition strtoul :: "string \<Rightarrow> 64 word \<times> nat \<times> bool" where
  "strtoul nptr =
     (let ws = takeWhile isspace nptr;
          s1 = dropWhile isspace nptr;
          neg = (s1 \<noteq> [] \<and> hd s1 = CHR ''-'');
          sign = (if s1 \<noteq> [] \<and> (hd s1 = CHR ''-'' \<or> hd s1 = CHR ''+'') then 1 else 0);
          ds = takeWhile isdigit (drop sign s1);
          n = digits_value ds
      in if ds = [] then (0, 0, False)
         else if ULONG_MAX < n then (of_int ULONG_MAX, length ws + sign + length ds, True)
         else ((if neg then - of_int n else of_int n), length ws + sign + length ds, False))"

datatype exn = Invalid_argument | Out_of_range

text \<open>
  \<^verbatim>\<open>std::stoul(str)\<close>: \<^verbatim>\<open>strtoul\<close> on \<^verbatim>\<open>str.c_str()\<close>; it throws
  \<^verbatim>\<open>std::invalid_argument\<close> when nothing was converted and \<^verbatim>\<open>std::out_of_range\<close> on
  \<^verbatim>\<open>ERANGE\<close>, and ignores what follows the number.
\<close>

definition stoul :: "string \<Rightarrow> exn + 64 word" where
  "stoul str =
     (case strtoul (c_str str) of
        (num, endpos, erange) \<Rightarrow>
          if endpos = 0 then Inl Invalid_argument
          else if erange then Inl Out_of_range
          else Inr num)"

text \<open>\<^verbatim>\<open>std::unordered_map::at\<close> on a table given as its initialiser list.\<close>

definition at :: "('k \<times> 'v) list \<Rightarrow> 'k \<Rightarrow> exn + 'v" where
  "at m k = (case map_of m k of None \<Rightarrow> Inl Out_of_range | Some v \<Rightarrow> Inr v)"

subsection \<open>Quality of service\<close>

text \<open>
  The rmw headers are not part of the sources. The profile has the fields the code
  reads and writes; an enumeration field holds the \<^verbatim>\<open>int\<close> value of its enumerator.
  The values of the enumerators are those of \<^verbatim>\<open>rmw/types.h\<close>, which the comment
  above \<^verbatim>\<open>qos_to_keyexpr\<close> quotes (reliable, volatile, keep last, depth 10 is
  \<^verbatim>\<open>1:2:1,10\<close>); the default durations are zero.
\<close>

record rmw_time_t =
  sec :: "64 word"
  nsec :: "64 word"

record rmw_qos_profile_t =
  history :: int
  depth :: "64 word"
  reliability :: int
  durability :: int
  deadline :: rmw_time_t
  lifespan :: rmw_time_t
  liveliness :: int
  liveliness_lease_duration :: rmw_time_t

definition RMW_QOS_POLICY_HISTORY_SYSTEM_DEFAULT :: int where
  "RMW_QOS_POLICY_HISTORY_SYSTEM_DEFAULT = 0"

definition RMW_QOS_POLICY_HISTORY_KEEP_LAST :: int where
  "RMW_QOS_POLICY_HISTORY_KEEP_LAST = 1"

definition RMW_QOS_POLICY_HISTORY_KEEP_ALL :: int where
  "RMW_QOS_POLICY_HISTORY_KEEP_ALL = 2"

definition RMW_QOS_POLICY_HISTORY_UNKNOWN :: int where
  "RMW_QOS_POLICY_HISTORY_UNKNOWN = 3"

definition RMW_QOS_POLICY_RELIABILITY_SYSTEM_DEFAULT :: int where
  "RMW_QOS_POLICY_RELIABILITY_SYSTEM_DEFAULT = 0"

definition RMW_QOS_POLICY_RELIABILITY_RELIABLE :: int where
  "RMW_QOS_POLICY_RELIABILITY_RELIABLE = 1"

definition RMW_QOS_POLICY_RELIABILITY_BEST_EFFORT :: int where
  "RMW_QOS_POLICY_RELIABILITY_BEST_EFFORT = 2"

definition RMW_QOS_POLICY_RELIABILITY_UNKNOWN :: int where
  "RMW_QOS_POLICY_RELIABILITY_UNKNOWN = 3"

definition RMW_QOS_POLICY_DURABILITY_SYSTEM_DEFAULT :: int where
  "RMW_QOS_POLICY_DURABILITY_SYSTEM_DEFAULT = 0"

definition RMW_QOS_POLICY_DURABILITY_TRANSIENT_LOCAL :: int where
  "RMW_QOS_POLICY_DURABILITY_TRANSIENT_LOCAL = 1"

definition RMW_QOS_POLICY_DURABILITY_VOLATILE :: int where
  "RMW_QOS_POLICY_DURABILITY_VOLATILE = 2"

definition RMW_QOS_POLICY_DURABILITY_UNKNOWN :: int where
  "RMW_QOS_POLICY_DURABILITY_UNKNOWN = 3"

definition RMW_QOS_POLICY_LIVELINESS_AUTOMATIC :: int where
  "RMW_QOS_POLICY_LIVELINESS_AUTOMATIC = 1"

definition RMW_QOS_LIVELINESS_LEASE_DURATION_DEFAULT :: rmw_time_t where
  "RMW_QOS_LIVELINESS_LEASE_DURATION_DEFAULT = \<lparr>sec = 0, nsec = 0\<rparr>"

definition RMW_QOS_DEADLINE_DEFAULT :: rmw_time_t where
  "RMW_QOS_DEADLINE_DEFAULT = \<lparr>sec = 0, nsec = 0\<rparr>"

definition RMW_QOS_LIFESPAN_DEFAULT :: rmw_time_t where
  "RMW_QOS_LIFESPAN_DEFAULT = \<lparr>sec = 0, nsec = 0\<rparr>"

definition str_to_qos_history :: "(string \<times> int) list" where
  "str_to_qos_history =
     [(to_string_int RMW_QOS_POLICY_HISTORY_SYSTEM_DEFAULT, RMW_QOS_POLICY_HISTORY_SYSTEM_DEFAULT),
      (to_string_int RMW_QOS_POLICY_HISTORY_KEEP_LAST, RMW_QOS_POLICY_HISTORY_KEEP_LAST),
      (to_string_int RMW_QOS_POLICY_HISTORY_KEEP_ALL, RMW_QOS_POLICY_HISTORY_KEEP_ALL),
      (to_string_int RMW_QOS_POLICY_HISTORY_UNKNOWN, RMW_QOS_POLICY_HISTORY_UNKNOWN)]"

definition str_to_qos_reliability :: "(string \<times> int) list" where
  "str_to_qos_reliability =
     [(to_string_int RMW_QOS_POLICY_RELIABILITY_SYSTEM_DEFAULT,
         RMW_QOS_POLICY_RELIABILITY_SYSTEM_DEFAULT),
      (to_string_int RMW_QOS_POLICY_RELIABILITY_RELIABLE, RMW_QOS_POLICY_RELIABILITY_RELIABLE),
      (to_string_int RMW_QOS_POLICY_RELIABILITY_BEST_EFFORT, RMW_QOS_POLICY_RELIABILITY_BEST_EFFORT),
      (to_string_int RMW_QOS_POLICY_RELIABILITY_UNKNOWN, RMW_QOS_POLICY_RELIABILITY_UNKNOWN)]"

definition str_to_qos_durability :: "(string \<times> int) list" where
  "str_to_qos_durability =
     [(to_string_int RMW_QOS_POLICY_DURABILITY_SYSTEM_DEFAULT,
         RMW_QOS_POLICY_DURABILITY_SYSTEM_DEFAULT),
      (to_string_int RMW_QOS_POLICY_DURABILITY_TRANSIENT_LOCAL,
         RMW_QOS_POLICY_DURABILITY_TRANSIENT_LOCAL),
      (to_string_int RMW_QOS_POLICY_DURABILITY_VOLATILE, RMW_QOS_POLICY_DURABILITY_VOLATILE),
      (to_string_int RMW_QOS_POLICY_DURABILITY_UNKNOWN, RMW_QOS_POLICY_DURABILITY_UNKNOWN)]"

definition qos_to_keyexpr :: "rmw_qos_profile_t \<Rightarrow> string" where
  "qos_to_keyexpr qos =
     (let keyexpr = [];
          keyexpr = keyexpr @ to_string_int (reliability qos);
          keyexpr = keyexpr @ [QOS_DELIMITER];
          keyexpr = keyexpr @ to_string_int (durability qos);
          keyexpr = keyexpr @ [QOS_DELIMITER];
          keyexpr = keyexpr @ to_string_int (history qos);
          keyexpr = keyexpr @ [QOS_HISTORY_DELIMITER];
          keyexpr = keyexpr @ to_string_nat (unat (depth qos))
      in keyexpr)"

text \<open>
  The three look-ups of the \<^verbatim>\<open>try\<close> block, in the order of the source; the first that
  throws leaves the block.
\<close>

definition qos_lookups :: "string \<Rightarrow> string \<Rightarrow> string \<Rightarrow> exn + (int \<times> int \<times> int)" where
  "qos_lookups h r d =
     (case at str_to_qos_history h of
        Inl e \<Rightarrow> Inl e
      | Inr hv \<Rightarrow>
          (case at str_to_qos_reliability r of
             Inl e \<Rightarrow> Inl e
           | Inr rv \<Rightarrow>
               (case at str_to_qos_durability d of
                  Inl e \<Rightarrow> Inl e
                | Inr dv \<Rightarrow> Inr (hv, rv, dv))))"

text \<open>
  \<^verbatim>\<open>keyexpr_to_qos\<close>: the \<^verbatim>\<open>catch\<close> clause turns an exception of the look-ups into
  \<^verbatim>\<open>std::nullopt\<close>. \<^verbatim>\<open>endptr == c_str()\<close> is offset 0, and \<^verbatim>\<open>*endptr != '\0'\<close> holds
  when the offset is before the end of the C string.
\<close>

definition keyexpr_to_qos :: "string \<Rightarrow> rmw_qos_profile_t option" where
  "keyexpr_to_qos kexpr =
     (let parts = split_keyexpr kexpr QOS_DELIMITER in
      if length parts < 3 then None
      else
        let history_parts = split_keyexpr (parts ! 2) QOS_HISTORY_DELIMITER in
        if length history_parts < 2 then None
        else
          (case qos_lookups (history_parts ! 0) (parts ! 0) (parts ! 1) of
             Inl e \<Rightarrow> None
           | Inr (hv, rv, dv) \<Rightarrow>
               (case strtoul (c_str (history_parts ! 1)) of
                  (num, endpos, erange) \<Rightarrow>
                    if endpos = 0 then None
                    else if endpos < length (c_str (history_parts ! 1)) then None
                    else if erange then None
                    else Some \<lparr>history = hv, depth = num, reliability = rv, durability = dv,
                      deadline = RMW_QOS_DEADLINE_DEFAULT,
                      lifespan = RMW_QOS_LIFESPAN_DEFAULT,
                      liveliness = RMW_QOS_POLICY_LIVELINESS_AUTOMATIC,
                      liveliness_lease_duration = RMW_QOS_LIVELINESS_LEASE_DURATION_DEFAULT\<rparr>)))"

subsection \<open>Entities\<close>

text \<open>
  The header that declares \<^verbatim>\<open>EntityType\<close> is not part of the sources. The five
  variants are the keys of \<^verbatim>\<open>entity_to_str\<close>; \<open>Invalid\<close> stands for an enumerator
  that is not a key, which \<^verbatim>\<open>Entity::make\<close> tests for.
\<close>

datatype EntityType = Invalid | Node | Publisher | Subscription | Service | Client

text \<open>
  A member \<^verbatim>\<open>x_\<close> of \<^verbatim>\<open>NodeInfo\<close>, \<^verbatim>\<open>TopicInfo\<close> or \<^verbatim>\<open>Entity\<close> is the field
  \<open>node_x\<close>, \<open>topic_x\<close> or \<open>entity_x\<close>: a name cannot end with an underscore here, and
  the three structures share member names.
\<close>

record NodeInfo =
  node_domain_id :: "64 word"
  node_ns :: string
  node_name :: string
  node_enclave :: string

record TopicInfo =
  topic_name :: string
  topic_type :: string
  topic_qos :: rmw_qos_profile_t

record Entity =
  entity_id :: string
  entity_type :: EntityType
  entity_node_info :: NodeInfo
  entity_topic_info :: "TopicInfo option"
  entity_keyexpr :: string

definition entity_to_str :: "(EntityType \<times> string) list" where
  "entity_to_str =
     [(Node, NODE_STR), (Publisher, PUB_STR), (Subscription, SUB_STR),
      (Service, SRV_STR), (Client, CLI_STR)]"

definition str_to_entity :: "(string \<times> EntityType) list" where
  "str_to_entity =
     [(NODE_STR, Node), (PUB_STR, Publisher), (SUB_STR, Subscription),
      (SRV_STR, Service), (CLI_STR, Client)]"

text \<open>
  The constructor \<^verbatim>\<open>Entity::Entity\<close>: it stores its arguments and builds the key
  expression in the string stream. \<^verbatim>\<open>entity_to_str.at\<close> throws for a type that is
  not a key.
\<close>

definition Entity_ctor ::
  "string \<Rightarrow> EntityType \<Rightarrow> NodeInfo \<Rightarrow> TopicInfo option \<Rightarrow> exn + Entity" where
  "Entity_ctor eid type node_info topic_info =
     (let ns = node_ns node_info in
      case at entity_to_str type of
        Inl e \<Rightarrow> Inl e
      | Inr entity_str \<Rightarrow>
          let token_ss = ADMIN_SPACE @ ''/'' @ to_string_nat (unat (node_domain_id node_info))
                @ ''/'' @ eid @ ''/'' @ entity_str @ ns;
              token_ss = (if ns = ''/'' then token_ss @ ''_/'' else token_ss @ ''/'');
              token_ss = token_ss @ mangle_name (node_name node_info);
              token_ss =
                (case topic_info of
                   None \<Rightarrow> token_ss
                 | Some ti \<Rightarrow>
                     token_ss @ (''/'' @ mangle_name (topic_name ti) @ ''/'' @ topic_type ti
                       @ ''/'' @ qos_to_keyexpr (topic_qos ti)))
          in Inr \<lparr>entity_id = eid, entity_type = type, entity_node_info = node_info,
               entity_topic_info = topic_info, entity_keyexpr = token_ss\<rparr>)"

definition keyexpr :: "Entity \<Rightarrow> string" where
  "keyexpr e = entity_keyexpr e"

text \<open>
  \<^verbatim>\<open>Entity::make(const std::string &)\<close>. The result is \<open>Inr None\<close> for
  \<^verbatim>\<open>std::nullopt\<close>, \<open>Inr (Some e)\<close> for an entity, and \<open>Inl x\<close> when the exception
  \<open>x\<close> leaves the function: \<^verbatim>\<open>std::stoul\<close> is called outside any \<^verbatim>\<open>try\<close> block.
\<close>

definition returned :: "exn + Entity \<Rightarrow> exn + Entity option" where
  "returned r = (case r of Inl e \<Rightarrow> Inl e | Inr entity \<Rightarrow> Inr (Some entity))"

definition Entity_make :: "string \<Rightarrow> exn + Entity option" where
  "Entity_make kexpr =
     (let parts = split_keyexpr kexpr CHR ''/'' in
      if length parts < 6 then Inr None
      else if list_ex (\<lambda>p. p = []) parts then Inr None
      else if parts ! 0 \<noteq> ADMIN_SPACE then Inr None
      else
        (case map_of str_to_entity (parts ! 3) of
           None \<Rightarrow> Inr None
         | Some etype \<Rightarrow>
             (case stoul (parts ! 1) of
                Inl e \<Rightarrow> Inl e
              | Inr domain_id \<Rightarrow>
                  let eid = parts ! 2;
                      ns = (if parts ! 4 = ''_'' then ''/'' else ''/'' @ parts ! 4);
                      nname = demangle_name (parts ! 5);
                      node_info = \<lparr>node_domain_id = domain_id, node_ns = ns, node_name = nname,
                        node_enclave = []\<rparr>
                  in
                    if etype \<noteq> Node then
                      if length parts < 9 then Inr None
                      else
                        (case keyexpr_to_qos (parts ! 8) of
                           None \<Rightarrow> Inr None
                         | Some qos \<Rightarrow>
                             returned
                               (Entity_ctor eid etype node_info
                                 (Some \<lparr>topic_name = demangle_name (parts ! 6),
                                    topic_type = parts ! 7, topic_qos = qos\<rparr>)))
                    else returned (Entity_ctor eid etype node_info None))))"

text \<open>
  \<^verbatim>\<open>zid_to_str\<close>: every byte of the session id in hexadecimal, without padding. The id
  is the list of its bytes; \<^verbatim>\<open>zenoh.h\<close>, which fixes their number, is not part of the
  sources.
\<close>

definition hex_char :: "nat \<Rightarrow> char" where
  "hex_char d = (if d < 10 then char_of (48 + d) else char_of (87 + d))"

fun to_hex :: "nat \<Rightarrow> string" where
  "to_hex n = (if n < 16 then [hex_char n] else to_hex (n div 16) @ [hex_char (n mod 16)])"

declare to_hex.simps [simp del]

definition zid_to_str :: "8 word list \<Rightarrow> string" where
  "zid_to_str zid = concat (map (\<lambda>b. to_hex (unat b)) zid)"

text \<open>\<^verbatim>\<open>Entity::make(z_id_t, EntityType, NodeInfo, std::optional<TopicInfo>)\<close>.\<close>

definition Entity_make_zid ::
  "8 word list \<Rightarrow> EntityType \<Rightarrow> NodeInfo \<Rightarrow> TopicInfo option \<Rightarrow> exn + Entity option" where
  "Entity_make_zid zid type node_info topic_info =
     (if map_of entity_to_str type = None then Inr None
      else if node_ns node_info = [] \<or> node_name node_info = [] then Inr None
      else if type \<noteq> Node \<and> topic_info = None then Inr None
      else returned (Entity_ctor (zid_to_str zid) type node_info topic_info))"

subsection \<open>Auxiliary functions of the proofs\<close>

text \<open>
  The segments of a string between the occurrences of a delimiter, by recursion over
  the string; \<open>split_keyexpr\<close> is shown to compute them. \<open>join_keyexpr\<close> puts a
  delimiter between the elements of a list, and states what a key expression with
  given segments is.
\<close>

primrec segments :: "char \<Rightarrow> string \<Rightarrow> string list" where
  "segments d [] = [[]]"
| "segments d (c # cs) =
     (if c = d then [] # segments d cs
      else (case segments d cs of [] \<Rightarrow> [[c]] | p # ps \<Rightarrow> (c # p) # ps))"

fun join_keyexpr :: "char \<Rightarrow> string list \<Rightarrow> string" where
  "join_keyexpr d [] = []"
| "join_keyexpr d [p] = p"
| "join_keyexpr d (p # q # ps) = p @ d # join_keyexpr d (q # ps)"

text \<open>
  What decoding makes of a profile: the four fields that the key expression does not
  carry are set to the fixed values of \<open>keyexpr_to_qos\<close>.
\<close>

definition decoded_defaults :: "rmw_qos_profile_t \<Rightarrow> rmw_qos_profile_t" where
  "decoded_defaults q = q\<lparr>deadline := RMW_QOS_DEADLINE_DEFAULT,
     lifespan := RMW_QOS_LIFESPAN_DEFAULT, liveliness := RMW_QOS_POLICY_LIVELINESS_AUTOMATIC,
     liveliness_lease_duration := RMW_QOS_LIVELINESS_LEASE_DURATION_DEFAULT\<rparr>"

text \<open>
  The local variables \<^verbatim>\<open>parts\<close> and \<^verbatim>\<open>history_parts\<close> of \<open>keyexpr_to_qos\<close>, to state
  properties of its input.
\<close>

abbreviation qos_parts :: "string \<Rightarrow> string list" where
  "qos_parts s \<equiv> split_keyexpr s QOS_DELIMITER"

abbreviation qos_history_parts :: "string \<Rightarrow> string list" where
  "qos_history_parts s \<equiv> split_keyexpr (qos_parts s ! 2) QOS_HISTORY_DELIMITER"

text \<open>
  The texts that \<^verbatim>\<open>strtoul\<close> converts in full and without \<^verbatim>\<open>ERANGE\<close>: white space,
  an optional sign, and a non-empty run of digits of a value up to \<^verbatim>\<open>ULONG_MAX\<close>.
\<close>

definition depth_text_ok :: "string \<Rightarrow> bool" where
  "depth_text_ok d \<longleftrightarrow>
     (let s1 = dropWhile isspace d;
          s2 = (if s1 \<noteq> [] \<and> (hd s1 = CHR ''-'' \<or> hd s1 = CHR ''+'') then tl s1 else s1)
      in s2 \<noteq> [] \<and> list_all isdigit s2 \<and> digits_value s2 \<le> ULONG_MAX)"

text \<open>
  The local variable \<^verbatim>\<open>parts\<close> of \<open>Entity_make\<close>, and the namespace it computes from
  segment 4.
\<close>

abbreviation key_parts :: "string \<Rightarrow> string list" where
  "key_parts s \<equiv> split_keyexpr s CHR ''/''"

definition decoded_namespace :: "string \<Rightarrow> string" where
  "decoded_namespace p = (if p = ''_'' then ''/'' else ''/'' @ p)"

text \<open>The segment 4 that the constructor writes for a namespace that starts with a slash.\<close>

definition namespace_segment :: "string \<Rightarrow> string" where
  "namespace_segment ns = (if ns = ''/'' then ''_'' else tl ns)"

section \<open>Properties\<close>

subsection \<open>Mangling\<close>

lemma length_mangle_name: "length (mangle_name x) = length x"
  by (induction x) simp_all

lemma length_demangle_name: "length (demangle_name x) = length x"
  by (induction x) simp_all

lemma demangle_mangle_name:
  "SLASH_REPLACEMENT \<notin> set x \<Longrightarrow> demangle_name (mangle_name x) = x"
  by (induction x) (auto simp: SLASH_REPLACEMENT_def)

lemma slash_notin_mangle_name: "CHR ''/'' \<notin> set (mangle_name x)"
  by (induction x) (simp_all add: SLASH_REPLACEMENT_def)

lemma mangle_name_eq_Nil: "mangle_name x = [] \<longleftrightarrow> x = []"
  by (cases x) simp_all

text \<open>
  Claim C8. For every string without the escape character \<open>%\<close>, demangling the mangled
  string gives the string back; mangling is injective on these strings; and both
  functions return, on every string, a string of the length of their input.
\<close>

theorem mangle_demangle_roundtrip:
  "(\<forall>x. CHR ''%'' \<notin> set x \<longrightarrow> demangle_name (mangle_name x) = x)
   \<and> inj_on mangle_name {x. CHR ''%'' \<notin> set x}
   \<and> (\<forall>x. length (mangle_name x) = length x \<and> length (demangle_name x) = length x)"
proof (intro conjI allI impI)
  fix x :: string
  assume "CHR ''%'' \<notin> set x"
  then show "demangle_name (mangle_name x) = x"
    by (simp add: demangle_mangle_name SLASH_REPLACEMENT_def)
next
  show "inj_on mangle_name {x. CHR ''%'' \<notin> set x}"
  proof (rule inj_onI)
    fix x y :: string
    assume x: "x \<in> {x. CHR ''%'' \<notin> set x}" and y: "y \<in> {x. CHR ''%'' \<notin> set x}"
      and eq: "mangle_name x = mangle_name y"
    from eq have "demangle_name (mangle_name x) = demangle_name (mangle_name y)"
      by simp
    with x y show "x = y"
      by (simp add: demangle_mangle_name SLASH_REPLACEMENT_def)
  qed
next
  fix x :: string
  show "length (mangle_name x) = length x"
    by (rule length_mangle_name)
next
  fix x :: string
  show "length (demangle_name x) = length x"
    by (rule length_demangle_name)
qed

theorem mangle_demangle_roundtrip_witness:
  "CHR ''%'' \<notin> set ''/chatter'' \<and> mangle_name ''/chatter'' = ''%chatter''
   \<and> demangle_name (mangle_name ''/chatter'') = ''/chatter''"
proof -
  have h: "CHR ''%'' \<notin> set ''/chatter''" by simp
  from mangle_demangle_roundtrip have "demangle_name (mangle_name ''/chatter'') = ''/chatter''"
    using h by blast
  then show ?thesis by (simp add: SLASH_REPLACEMENT_def)
qed

subsection \<open>The splitter computes the segments\<close>

lemma segments_not_Nil: "segments d s \<noteq> []"
  by (induction s) (auto split: list.splits)

lemma segments_no_delim: "d \<notin> set a \<Longrightarrow> segments d a = [a]"
  by (induction a) auto

lemma segments_append:
  "d \<notin> set a \<Longrightarrow> segments d (a @ d # rest) = a # segments d rest"
  by (induction a) auto


lemma find_char_split:
  "find_char d s = Some k \<Longrightarrow> s = take k s @ d # drop (Suc k) s"
  using find_char_Some [of d s k] id_take_nth_drop [of k s] by auto

lemma split_loop_segments:
  "split_loop s d start result = result @ segments d (drop start s)"
proof (induction s d start result rule: split_loop.induct)
  case (1 s d start result)
  show ?case
  proof (cases "find_char d (drop start s)")
    case None
    then have "d \<notin> set (drop start s)"
      by (simp add: find_char_None)
    with None show ?thesis
      by (subst split_loop.simps) (simp add: str_find_def segments_no_delim)
  next
    case (Some k)
    let ?t = "drop start s"
    from Some have f: "str_find s d start = Some (start + k)"
      by (simp add: str_find_def)
    from Some have t: "?t = take k ?t @ d # drop (Suc k) ?t" and n: "d \<notin> set (take k ?t)"
      using find_char_split find_char_Some by blast+
    have "segments d ?t = segments d (take k ?t @ d # drop (Suc k) ?t)"
      using t by simp
    also have "\<dots> = take k ?t # segments d (drop (Suc k) ?t)"
      using n by (rule segments_append)
    finally have seg: "segments d ?t = take k ?t # segments d (drop (start + k + 1) s)"
      by (simp add: add.commute)
    have "split_loop s d start result
        = split_loop s d (start + k + 1) (result @ [substr s start (start + k - start)])"
      by (subst split_loop.simps) (simp add: f)
    also have "\<dots> = (result @ [substr s start (start + k - start)])
        @ segments d (drop (start + k + 1) s)"
      using "1.IH" [OF f] by simp
    finally show ?thesis
      by (simp add: seg substr_def)
  qed
qed

lemma split_keyexpr_segments: "split_keyexpr s d = segments d s"
  by (simp add: split_keyexpr_def split_loop_segments)


lemma join_segments: "join_keyexpr d (segments d s) = s"
proof (induction s)
  case Nil
  show ?case by simp
next
  case (Cons c s)
  then show ?case
    by (cases "segments d s"; cases "tl (segments d s)") (auto simp: segments_not_Nil)
qed

subsection \<open>Decimal numerals are read back\<close>

lemma digit_char_table:
  "list_all (\<lambda>d. isdigit (digit_char d) \<and> digit_value (digit_char d) = int d) [0..<10]"
  by code_simp

lemma isdigit_digit_char: "d < 10 \<Longrightarrow> isdigit (digit_char d)"
  using digit_char_table by (simp add: list_all_iff)

lemma digit_value_digit_char: "d < 10 \<Longrightarrow> digit_value (digit_char d) = int d"
  using digit_char_table by (simp add: list_all_iff)

lemma isdigit_simps:
  "isdigit c \<Longrightarrow> c \<noteq> CHR ''/'' \<and> c \<noteq> CHR '':'' \<and> c \<noteq> CHR '','' \<and> c \<noteq> CHR ''-''
     \<and> c \<noteq> CHR ''+'' \<and> c \<noteq> CHR 0x00 \<and> c \<noteq> CHR ''%'' \<and> \<not> isspace c"
  by (auto simp: isdigit_def isspace_def)

lemma to_string_nat_digits: "c \<in> set (to_string_nat n) \<Longrightarrow> isdigit c"
proof (induction n arbitrary: c rule: to_string_nat.induct)
  case (1 n)
  show ?case
  proof (cases "n < 10")
    case True
    with "1.prems" show ?thesis
      by (subst (asm) to_string_nat.simps) (simp add: isdigit_digit_char)
  next
    case False
    with "1.prems" have "c \<in> set (to_string_nat (n div 10)) \<or> c = digit_char (n mod 10)"
      by (subst (asm) to_string_nat.simps) auto
    with False "1.IH" show ?thesis
      by (auto simp: isdigit_digit_char)
  qed
qed

lemma to_string_nat_not_Nil: "to_string_nat n \<noteq> []"
  by (subst to_string_nat.simps) simp

lemma digits_value_snoc: "digits_value (ds @ [c]) = digits_value ds * 10 + digit_value c"
  by (simp add: digits_value_def)

lemma digits_value_to_string_nat: "digits_value (to_string_nat n) = int n"
proof (induction n rule: to_string_nat.induct)
  case (1 n)
  show ?case
  proof (cases "n < 10")
    case True
    then show ?thesis
      by (subst to_string_nat.simps) (simp add: digits_value_def digit_value_digit_char)
  next
    case False
    with "1.IH" have "digits_value (to_string_nat (n div 10)) = int (n div 10)"
      by simp
    with False show ?thesis
      by (subst to_string_nat.simps)
        (simp add: digits_value_snoc digit_value_digit_char zdiv_int zmod_int)
  qed
qed

lemma takeWhile_all: "\<forall>c\<in>set s. P c \<Longrightarrow> takeWhile P s = s"
  by (induction s) auto

lemma c_str_no_NUL: "CHR 0x00 \<notin> set s \<Longrightarrow> c_str s = s"
  by (auto simp: c_str_def intro: takeWhile_all)

lemma c_str_to_string_nat: "c_str (to_string_nat n) = to_string_nat n"
  by (rule c_str_no_NUL) (auto dest: to_string_nat_digits isdigit_simps)

lemma strtoul_digits:
  assumes ds: "ds \<noteq> []" "\<forall>c\<in>set ds. isdigit c"
  shows "strtoul ds =
    (if ULONG_MAX < digits_value ds then (of_int ULONG_MAX, length ds, True)
     else (of_int (digits_value ds), length ds, False))"
proof -
  from ds obtain c cs where s: "ds = c # cs" and c: "isdigit c"
    by (cases ds) auto
  from c have nsp: "\<not> isspace c" and nsg: "c \<noteq> CHR ''-''" "c \<noteq> CHR ''+''"
    using isdigit_simps by blast+
  have tw: "takeWhile isdigit ds = ds"
    using ds by (simp add: takeWhile_all)
  have dw: "dropWhile isspace ds = ds" "takeWhile isspace ds = []"
    using nsp by (simp_all add: s)
  show ?thesis
    unfolding strtoul_def dw Let_def
    using nsg tw ds(1) by (simp add: s)
qed

lemma strtoul_to_string_nat:
  "n < 2 ^ 64 \<Longrightarrow> strtoul (to_string_nat n) = (of_nat n, length (to_string_nat n), False)"
  using strtoul_digits [of "to_string_nat n"]
  by (simp add: to_string_nat_not_Nil to_string_nat_digits digits_value_to_string_nat
      ULONG_MAX_def)

lemma stoul_to_string_nat: "stoul (to_string_nat (unat (w :: 64 word))) = Inr w"
proof -
  have "unat w < 2 ^ 64"
    using unsigned_less [of w] by simp
  then show ?thesis
    by (simp add: stoul_def c_str_to_string_nat strtoul_to_string_nat to_string_nat_not_Nil)
qed

subsection \<open>Quality of service: encoding and decoding\<close>

lemma to_string_int_table:
  "to_string_int 0 = ''0''" "to_string_int 1 = ''1''" "to_string_int 2 = ''2''"
  "to_string_int 3 = ''3''"
  by code_simp+

lemmas qos_enum_defs =
  RMW_QOS_POLICY_HISTORY_SYSTEM_DEFAULT_def RMW_QOS_POLICY_HISTORY_KEEP_LAST_def
  RMW_QOS_POLICY_HISTORY_KEEP_ALL_def RMW_QOS_POLICY_HISTORY_UNKNOWN_def
  RMW_QOS_POLICY_RELIABILITY_SYSTEM_DEFAULT_def RMW_QOS_POLICY_RELIABILITY_RELIABLE_def
  RMW_QOS_POLICY_RELIABILITY_BEST_EFFORT_def RMW_QOS_POLICY_RELIABILITY_UNKNOWN_def
  RMW_QOS_POLICY_DURABILITY_SYSTEM_DEFAULT_def RMW_QOS_POLICY_DURABILITY_TRANSIENT_LOCAL_def
  RMW_QOS_POLICY_DURABILITY_VOLATILE_def RMW_QOS_POLICY_DURABILITY_UNKNOWN_def

lemma at_str_to_qos_history:
  "v \<in> snd ` set str_to_qos_history \<Longrightarrow> at str_to_qos_history (to_string_int v) = Inr v"
  by (auto simp: str_to_qos_history_def at_def qos_enum_defs to_string_int_table)

lemma at_str_to_qos_reliability:
  "v \<in> snd ` set str_to_qos_reliability \<Longrightarrow> at str_to_qos_reliability (to_string_int v) = Inr v"
  by (auto simp: str_to_qos_reliability_def at_def qos_enum_defs to_string_int_table)

lemma at_str_to_qos_durability:
  "v \<in> snd ` set str_to_qos_durability \<Longrightarrow> at str_to_qos_durability (to_string_int v) = Inr v"
  by (auto simp: str_to_qos_durability_def at_def qos_enum_defs to_string_int_table)

lemma to_string_int_chars: "c \<in> set (to_string_int i) \<Longrightarrow> c = CHR ''-'' \<or> isdigit c"
  by (auto simp: to_string_int_def dest: to_string_nat_digits split: if_splits)

lemma to_string_int_free:
  "CHR '':'' \<notin> set (to_string_int i)" "CHR '','' \<notin> set (to_string_int i)"
  "CHR ''/'' \<notin> set (to_string_int i)"
  using to_string_int_chars [of _ i] isdigit_simps by fastforce+

lemma to_string_nat_free:
  "CHR '':'' \<notin> set (to_string_nat n)" "CHR '','' \<notin> set (to_string_nat n)"
  "CHR ''/'' \<notin> set (to_string_nat n)"
  using to_string_nat_digits [of _ n] isdigit_simps by fastforce+

lemma to_string_int_not_Nil: "to_string_int i \<noteq> []"
  by (simp add: to_string_int_def to_string_nat_not_Nil)

lemma qos_to_keyexpr_eq:
  "qos_to_keyexpr q = to_string_int (reliability q) @ CHR '':'' # to_string_int (durability q)
     @ CHR '':'' # to_string_int (history q) @ CHR '','' # to_string_nat (unat (depth q))"
  by (simp add: qos_to_keyexpr_def QOS_DELIMITER_def QOS_HISTORY_DELIMITER_def)

lemma split_qos_to_keyexpr:
  "split_keyexpr (qos_to_keyexpr q) CHR '':'' =
     [to_string_int (reliability q), to_string_int (durability q),
      to_string_int (history q) @ CHR '','' # to_string_nat (unat (depth q))]"
  by (simp add: qos_to_keyexpr_eq split_keyexpr_segments segments_append segments_no_delim
      to_string_int_free to_string_nat_free)

lemma split_history_part:
  "split_keyexpr (to_string_int h @ CHR '','' # to_string_nat n) CHR '','' =
     [to_string_int h, to_string_nat n]"
  by (simp add: split_keyexpr_segments segments_append segments_no_delim
      to_string_int_free to_string_nat_free)

lemma keyexpr_to_qos_qos_to_keyexpr:
  assumes "reliability q \<in> snd ` set str_to_qos_reliability"
    and "durability q \<in> snd ` set str_to_qos_durability"
    and "history q \<in> snd ` set str_to_qos_history"
  shows "keyexpr_to_qos (qos_to_keyexpr q) = Some (decoded_defaults q)"
proof -
  have lk: "qos_lookups (to_string_int (history q)) (to_string_int (reliability q))
      (to_string_int (durability q)) = Inr (history q, reliability q, durability q)"
    using assms
    by (simp add: qos_lookups_def at_str_to_qos_history at_str_to_qos_reliability
        at_str_to_qos_durability)
  have "unat (depth q) < 2 ^ 64"
    using unsigned_less [of "depth q"] by simp
  then have st: "strtoul (to_string_nat (unat (depth q)))
      = (depth q, length (to_string_nat (unat (depth q))), False)"
    by (simp add: strtoul_to_string_nat)
  show ?thesis
    by (simp add: keyexpr_to_qos_def QOS_DELIMITER_def QOS_HISTORY_DELIMITER_def
        split_qos_to_keyexpr split_history_part lk st c_str_to_string_nat
        to_string_nat_not_Nil decoded_defaults_def)
qed

text \<open>
  Claim C6. For every profile whose reliability, durability and history are values of
  the three tables, and for every depth (a \<^verbatim>\<open>size_t\<close>), decoding the encoding of the
  profile succeeds and gives the profile with liveliness, liveliness lease duration,
  deadline and lifespan set to the fixed defaults.
\<close>

theorem qos_roundtrip:
  assumes "reliability q \<in> snd ` set str_to_qos_reliability"
    and "durability q \<in> snd ` set str_to_qos_durability"
    and "history q \<in> snd ` set str_to_qos_history"
  shows "keyexpr_to_qos (qos_to_keyexpr q) = Some (decoded_defaults q)"
  using assms by (rule keyexpr_to_qos_qos_to_keyexpr)

theorem qos_roundtrip_witness:
  "qos_to_keyexpr \<lparr>history = 2, depth = 10, reliability = 2, durability = 1,
      deadline = \<lparr>sec = 7, nsec = 0\<rparr>, lifespan = \<lparr>sec = 0, nsec = 9\<rparr>, liveliness = 3,
      liveliness_lease_duration = \<lparr>sec = 1, nsec = 1\<rparr>\<rparr> = ''2:1:2,10''
   \<and> keyexpr_to_qos ''2:1:2,10'' =
     Some \<lparr>history = 2, depth = 10, reliability = 2, durability = 1,
      deadline = \<lparr>sec = 0, nsec = 0\<rparr>, lifespan = \<lparr>sec = 0, nsec = 0\<rparr>, liveliness = 1,
      liveliness_lease_duration = \<lparr>sec = 0, nsec = 0\<rparr>\<rparr>"
proof -
  let ?q = "\<lparr>history = 2, depth = 10, reliability = 2, durability = 1,
      deadline = \<lparr>sec = 7, nsec = 0\<rparr>, lifespan = \<lparr>sec = 0, nsec = 9\<rparr>, liveliness = 3,
      liveliness_lease_duration = \<lparr>sec = 1, nsec = 1\<rparr>\<rparr>"
  have r: "reliability ?q \<in> snd ` set str_to_qos_reliability"
    by (simp add: str_to_qos_reliability_def qos_enum_defs)
  have d: "durability ?q \<in> snd ` set str_to_qos_durability"
    by (simp add: str_to_qos_durability_def qos_enum_defs)
  have h: "history ?q \<in> snd ` set str_to_qos_history"
    by (simp add: str_to_qos_history_def qos_enum_defs)
  have k: "qos_to_keyexpr ?q = ''2:1:2,10''"
    by code_simp
  from qos_roundtrip [OF r d h] show ?thesis
    unfolding k
    by (simp add: decoded_defaults_def RMW_QOS_DEADLINE_DEFAULT_def RMW_QOS_LIFESPAN_DEFAULT_def
        RMW_QOS_POLICY_LIVELINESS_AUTOMATIC_def RMW_QOS_LIVELINESS_LEASE_DURATION_DEFAULT_def)
qed

subsection \<open>Quality of service: inputs that are refused\<close>

lemma takeWhile_prefix:
  "\<forall>x\<in>set ds. P x \<Longrightarrow> rest = [] \<or> \<not> P (hd rest) \<Longrightarrow> takeWhile P (ds @ rest) = ds"
  by (cases rest) (simp_all add: takeWhile_all takeWhile_append2)

lemma strtoul_prefix:
  assumes ds: "ds \<noteq> []" "\<forall>c\<in>set ds. isdigit c" and rest: "rest = [] \<or> \<not> isdigit (hd rest)"
  shows "strtoul (ds @ rest) =
    (if ULONG_MAX < digits_value ds then (of_int ULONG_MAX, length ds, True)
     else (of_int (digits_value ds), length ds, False))"
proof -
  from ds obtain c cs where s: "ds = c # cs" and c: "isdigit c"
    by (cases ds) auto
  from c have nsp: "\<not> isspace c" and nsg: "c \<noteq> CHR ''-''" "c \<noteq> CHR ''+''"
    using isdigit_simps by blast+
  have tw: "takeWhile isdigit (ds @ rest) = ds"
    using ds(2) rest by (rule takeWhile_prefix)
  have dw: "dropWhile isspace (ds @ rest) = ds @ rest" "takeWhile isspace (ds @ rest) = []"
    using nsp by (simp_all add: s)
  have hd: "hd (ds @ rest) = c" "ds @ rest \<noteq> []"
    by (simp_all add: s)
  show ?thesis
    unfolding strtoul_def dw Let_def hd
    using nsg tw ds(1) by simp
qed

lemma c_str_digits_junk:
  "\<forall>x\<in>set ds. isdigit x \<Longrightarrow> c_str (ds @ rest) = ds @ c_str rest"
  unfolding c_str_def using isdigit_simps by (intro takeWhile_append2) blast

lemma at_not_key: "k \<notin> fst ` set m \<Longrightarrow> at m k = Inl Out_of_range"
  by (simp add: at_def map_of_eq_None_iff [THEN iffD2])

lemma qos_lookups_not_key:
  "h \<notin> fst ` set str_to_qos_history \<or> r \<notin> fst ` set str_to_qos_reliability
     \<or> d \<notin> fst ` set str_to_qos_durability \<Longrightarrow> \<exists>e. qos_lookups h r d = Inl e"
  by (auto simp: qos_lookups_def at_not_key split: sum.splits)

lemma keyexpr_to_qos_few_parts:
  "length (split_keyexpr s QOS_DELIMITER) < 3 \<Longrightarrow> keyexpr_to_qos s = None"
  by (simp add: keyexpr_to_qos_def)

lemma keyexpr_to_qos_few_history_parts:
  "length (split_keyexpr (split_keyexpr s QOS_DELIMITER ! 2) QOS_HISTORY_DELIMITER) < 2
    \<Longrightarrow> keyexpr_to_qos s = None"
  by (simp add: keyexpr_to_qos_def Let_def)

lemma keyexpr_to_qos_not_key:
  assumes "split_keyexpr (split_keyexpr s QOS_DELIMITER ! 2) QOS_HISTORY_DELIMITER ! 0
        \<notin> fst ` set str_to_qos_history
      \<or> split_keyexpr s QOS_DELIMITER ! 0 \<notin> fst ` set str_to_qos_reliability
      \<or> split_keyexpr s QOS_DELIMITER ! 1 \<notin> fst ` set str_to_qos_durability"
  shows "keyexpr_to_qos s = None"
  using qos_lookups_not_key [OF assms] by (auto simp: keyexpr_to_qos_def Let_def)

lemma keyexpr_to_qos_depth:
  assumes "strtoul (c_str (split_keyexpr (split_keyexpr s QOS_DELIMITER ! 2)
      QOS_HISTORY_DELIMITER ! 1)) = (num, endpos, erange)"
    and "endpos = 0 \<or> endpos < length (c_str (split_keyexpr (split_keyexpr s QOS_DELIMITER ! 2)
      QOS_HISTORY_DELIMITER ! 1)) \<or> erange"
  shows "keyexpr_to_qos s = None"
  using assms by (auto simp: keyexpr_to_qos_def Let_def split: sum.splits)

lemma strtoul_Nil: "strtoul [] = (0, 0, False)"
  by (simp add: strtoul_def)

lemma keyexpr_to_qos_depth_empty:
  assumes "split_keyexpr (split_keyexpr s QOS_DELIMITER ! 2) QOS_HISTORY_DELIMITER ! 1 = []"
  shows "keyexpr_to_qos s = None"
  by (rule keyexpr_to_qos_depth [where num = 0 and endpos = 0 and erange = False])
    (simp_all add: assms [simplified] c_str_def strtoul_Nil)

lemma keyexpr_to_qos_depth_junk:
  assumes dep: "split_keyexpr (split_keyexpr s QOS_DELIMITER ! 2) QOS_HISTORY_DELIMITER ! 1
      = ds @ c # rest"
    and ds: "ds \<noteq> []" "\<forall>x\<in>set ds. isdigit x" and c: "\<not> isdigit c" "c \<noteq> CHR 0x00"
  shows "keyexpr_to_qos s = None"
proof -
  have cs: "c_str (ds @ c # rest) = ds @ c # c_str rest"
    using ds(2) c(2) by (simp add: c_str_digits_junk) (simp add: c_str_def)
  have "strtoul (ds @ c # c_str rest) =
    (if ULONG_MAX < digits_value ds then (of_int ULONG_MAX, length ds, True)
     else (of_int (digits_value ds), length ds, False))"
    using ds c(1) by (intro strtoul_prefix) simp_all
  then obtain num erange where "strtoul (ds @ c # c_str rest) = (num, length ds, erange)"
    by (simp split: if_splits)
  then show ?thesis
    by (intro keyexpr_to_qos_depth [where num = num and endpos = "length ds" and erange = erange])
      (simp_all add: dep [simplified] cs)
qed

lemma keyexpr_to_qos_depth_overflow:
  assumes dep: "split_keyexpr (split_keyexpr s QOS_DELIMITER ! 2) QOS_HISTORY_DELIMITER ! 1 = ds"
    and ds: "\<forall>x\<in>set ds. isdigit x" "ULONG_MAX < digits_value ds"
  shows "keyexpr_to_qos s = None"
proof (cases "ds = []")
  case True
  with dep show ?thesis
    by (simp add: keyexpr_to_qos_depth_empty)
next
  case False
  have cs: "c_str ds = ds"
    using ds(1) isdigit_simps by (intro c_str_no_NUL) blast
  have "strtoul ds = (of_int ULONG_MAX, length ds, True)"
    using strtoul_prefix [of ds "[]"] False ds by simp
  then show ?thesis
    by (intro keyexpr_to_qos_depth [where num = "of_int ULONG_MAX" and endpos = "length ds"
          and erange = True]) (simp_all add: dep [simplified] cs)
qed

lemma keyexpr_to_qos_Some_defaults:
  "keyexpr_to_qos s = Some q \<Longrightarrow>
     liveliness q = RMW_QOS_POLICY_LIVELINESS_AUTOMATIC
     \<and> liveliness_lease_duration q = RMW_QOS_LIVELINESS_LEASE_DURATION_DEFAULT
     \<and> deadline q = RMW_QOS_DEADLINE_DEFAULT \<and> lifespan q = RMW_QOS_LIFESPAN_DEFAULT"
  by (auto simp: keyexpr_to_qos_def Let_def split: if_splits sum.splits prod.splits)

text \<open>
  Some of the inputs that \<open>keyexpr_to_qos\<close> refuses, and the fixed fields of what it
  returns.
\<close>

lemma keyexpr_to_qos_failures:
  "(length (qos_parts s) < 3
    \<or> length (qos_history_parts s) < 2
    \<or> qos_parts s ! 0 \<notin> fst ` set str_to_qos_reliability
    \<or> qos_parts s ! 1 \<notin> fst ` set str_to_qos_durability
    \<or> qos_history_parts s ! 0 \<notin> fst ` set str_to_qos_history
    \<or> qos_history_parts s ! 1 = []
    \<or> (\<exists>ds c rest. qos_history_parts s ! 1 = ds @ c # rest \<and> ds \<noteq> []
          \<and> (\<forall>x\<in>set ds. isdigit x) \<and> \<not> isdigit c \<and> c \<noteq> CHR 0x00)
    \<or> ((\<forall>x\<in>set (qos_history_parts s ! 1). isdigit x)
          \<and> ULONG_MAX < digits_value (qos_history_parts s ! 1))
    \<longrightarrow> keyexpr_to_qos s = None)
   \<and> (\<forall>q. keyexpr_to_qos s = Some q \<longrightarrow>
         liveliness q = RMW_QOS_POLICY_LIVELINESS_AUTOMATIC
         \<and> liveliness_lease_duration q = RMW_QOS_LIVELINESS_LEASE_DURATION_DEFAULT
         \<and> deadline q = RMW_QOS_DEADLINE_DEFAULT \<and> lifespan q = RMW_QOS_LIFESPAN_DEFAULT)"
proof (intro conjI impI allI)
  assume "length (qos_parts s) < 3
    \<or> length (qos_history_parts s) < 2
    \<or> qos_parts s ! 0 \<notin> fst ` set str_to_qos_reliability
    \<or> qos_parts s ! 1 \<notin> fst ` set str_to_qos_durability
    \<or> qos_history_parts s ! 0 \<notin> fst ` set str_to_qos_history
    \<or> qos_history_parts s ! 1 = []
    \<or> (\<exists>ds c rest. qos_history_parts s ! 1 = ds @ c # rest \<and> ds \<noteq> []
          \<and> (\<forall>x\<in>set ds. isdigit x) \<and> \<not> isdigit c \<and> c \<noteq> CHR 0x00)
    \<or> ((\<forall>x\<in>set (qos_history_parts s ! 1). isdigit x)
          \<and> ULONG_MAX < digits_value (qos_history_parts s ! 1))"
  then consider
      (parts) "length (qos_parts s) < 3"
    | (hparts) "length (qos_history_parts s) < 2"
    | (key) "qos_history_parts s ! 0 \<notin> fst ` set str_to_qos_history
        \<or> qos_parts s ! 0 \<notin> fst ` set str_to_qos_reliability
        \<or> qos_parts s ! 1 \<notin> fst ` set str_to_qos_durability"
    | (empty) "qos_history_parts s ! 1 = []"
    | (junk) ds c rest where "qos_history_parts s ! 1 = ds @ c # rest" "ds \<noteq> []"
        "\<forall>x\<in>set ds. isdigit x" "\<not> isdigit c" "c \<noteq> CHR 0x00"
    | (overflow) "\<forall>x\<in>set (qos_history_parts s ! 1). isdigit x"
        "ULONG_MAX < digits_value (qos_history_parts s ! 1)"
    by blast
  then show "keyexpr_to_qos s = None"
  proof cases
    case parts
    then show ?thesis by (rule keyexpr_to_qos_few_parts)
  next
    case hparts
    then show ?thesis by (rule keyexpr_to_qos_few_history_parts)
  next
    case key
    then show ?thesis by (rule keyexpr_to_qos_not_key)
  next
    case empty
    then show ?thesis by (rule keyexpr_to_qos_depth_empty)
  next
    case junk
    then show ?thesis by (rule keyexpr_to_qos_depth_junk)
  next
    case overflow
    show ?thesis
      using refl overflow by (rule keyexpr_to_qos_depth_overflow)
  qed
next
  fix q
  assume "keyexpr_to_qos s = Some q"
  from keyexpr_to_qos_Some_defaults [OF this]
  show "liveliness q = RMW_QOS_POLICY_LIVELINESS_AUTOMATIC"
    and "liveliness_lease_duration q = RMW_QOS_LIVELINESS_LEASE_DURATION_DEFAULT"
    and "deadline q = RMW_QOS_DEADLINE_DEFAULT"
    and "lifespan q = RMW_QOS_LIFESPAN_DEFAULT"
    by simp_all
qed

lemma keyexpr_to_qos_failures_examples:
  "qos_parts ''99:1:1,5'' ! 0 \<notin> fst ` set str_to_qos_reliability
   \<and> keyexpr_to_qos ''99:1:1,5'' = None
   \<and> length (qos_parts ''1:2'') < 3 \<and> keyexpr_to_qos ''1:2'' = None
   \<and> qos_history_parts ''1:2:1,'' ! 1 = [] \<and> keyexpr_to_qos ''1:2:1,'' = None
   \<and> qos_history_parts ''1:2:1,10x'' ! 1 = ''10'' @ CHR ''x'' # []
   \<and> keyexpr_to_qos ''1:2:1,10x'' = None
   \<and> keyexpr_to_qos ''1:2:1,10'' \<noteq> None
   \<and> liveliness (the (keyexpr_to_qos ''1:2:1,10'')) = RMW_QOS_POLICY_LIVELINESS_AUTOMATIC"
proof -
  have a: "qos_parts ''99:1:1,5'' ! 0 \<notin> fst ` set str_to_qos_reliability"
    by code_simp
  have b: "length (qos_parts ''1:2'') < 3"
    by code_simp
  have c: "qos_history_parts ''1:2:1,'' ! 1 = []"
    by code_simp
  have d: "qos_history_parts ''1:2:1,10x'' ! 1 = ''10'' @ CHR ''x'' # []"
    by code_simp
  have d': "''10'' \<noteq> [] \<and> (\<forall>x\<in>set ''10''. isdigit x) \<and> \<not> isdigit CHR ''x''
      \<and> CHR ''x'' \<noteq> CHR 0x00"
    by (simp add: isdigit_def)
  have e: "keyexpr_to_qos ''1:2:1,10'' \<noteq> None"
    by code_simp
  then obtain q where q: "keyexpr_to_qos ''1:2:1,10'' = Some q"
    by blast
  from keyexpr_to_qos_failures [of "''99:1:1,5''"] a
  have 1: "keyexpr_to_qos ''99:1:1,5'' = None" by blast
  from keyexpr_to_qos_failures [of "''1:2''"] b
  have 2: "keyexpr_to_qos ''1:2'' = None" by blast
  from keyexpr_to_qos_failures [of "''1:2:1,''"] c
  have 3: "keyexpr_to_qos ''1:2:1,'' = None" by blast
  from keyexpr_to_qos_failures [of "''1:2:1,10x''"] d d'
  have 4: "keyexpr_to_qos ''1:2:1,10x'' = None" by blast
  from keyexpr_to_qos_failures [of "''1:2:1,10''"] q
  have 5: "liveliness q = RMW_QOS_POLICY_LIVELINESS_AUTOMATIC" by blast
  from a b c d e 1 2 3 4 5 q show ?thesis
    by simp
qed

lemma takeWhile_eq_self: "takeWhile P xs = xs \<longleftrightarrow> list_all P xs"
  by (simp add: list_all_iff)

lemma length_takeWhile_full: "length xs \<le> length (takeWhile P xs) \<longleftrightarrow> list_all P xs"
proof
  assume "length xs \<le> length (takeWhile P xs)"
  then have "length (takeWhile P xs) = length xs"
    using length_takeWhile_le [of P xs] by simp
  then have "takeWhile P xs = xs"
    by (metis takeWhile_dropWhile_id append_eq_conv_conj take_all order_refl)
  then show "list_all P xs"
    by (simp only: takeWhile_eq_self)
next
  assume "list_all P xs"
  then have "takeWhile P xs = xs"
    by (simp only: takeWhile_eq_self)
  then show "length xs \<le> length (takeWhile P xs)"
    by (metis order_refl)
qed

lemma strtoul_accepts:
  "(case strtoul d of (num, endpos, erange) \<Rightarrow>
      \<not> (endpos = 0 \<or> endpos < length d \<or> erange)) \<longleftrightarrow> depth_text_ok d"
proof -
  define ws where "ws = takeWhile isspace d"
  define s1 where "s1 = dropWhile isspace d"
  define sg :: nat where
    "sg = (if s1 \<noteq> [] \<and> (hd s1 = CHR ''-'' \<or> hd s1 = CHR ''+'') then 1 else 0)"
  define s2 where
    "s2 = (if s1 \<noteq> [] \<and> (hd s1 = CHR ''-'' \<or> hd s1 = CHR ''+'') then tl s1 else s1)"
  define neg where "neg \<longleftrightarrow> s1 \<noteq> [] \<and> hd s1 = CHR ''-''"
  define ds where "ds = takeWhile isdigit s2"
  have d: "length d = length ws + length s1"
    unfolding ws_def s1_def by (metis length_append takeWhile_dropWhile_id)
  have s2: "drop sg s1 = s2"
    unfolding sg_def s2_def by (simp add: drop_Suc)
  have l: "length s1 = sg + length s2"
    unfolding sg_def s2_def by (cases s1) auto
  have st: "strtoul d =
    (if ds = [] then (0, 0, False)
     else if ULONG_MAX < digits_value ds
       then (of_int ULONG_MAX, length ws + sg + length ds, True)
       else ((if neg then - of_int (digits_value ds) else of_int (digits_value ds)),
         length ws + sg + length ds, False))"
    unfolding strtoul_def Let_def ws_def [symmetric] s1_def [symmetric] sg_def [symmetric]
      neg_def [symmetric] s2 ds_def [symmetric] ..
  have ok: "depth_text_ok d \<longleftrightarrow> s2 \<noteq> [] \<and> list_all isdigit s2 \<and> digits_value s2 \<le> ULONG_MAX"
    unfolding depth_text_ok_def Let_def s1_def [symmetric] s2_def [symmetric] ..
  have full: "\<not> length ws + sg + length ds < length d \<longleftrightarrow> list_all isdigit s2"
    unfolding d l ds_def using length_takeWhile_full [of s2 isdigit] by auto
  show ?thesis
  proof (cases "list_all isdigit s2")
    case True
    then have "ds = s2"
      unfolding ds_def by (simp only: takeWhile_eq_self)
    with True full show ?thesis
      unfolding st ok by (auto simp: not_less)
  next
    case False
    with full have "length ws + sg + length ds < length d"
      by blast
    with False show ?thesis
      unfolding st ok by auto
  qed
qed


lemma at_Inr_iff: "(\<exists>v. at m k = Inr v) \<longleftrightarrow> k \<in> fst ` set m"
proof (cases "map_of m k")
  case None
  then show ?thesis
    by (simp add: at_def map_of_eq_None_iff [THEN iffD1])
next
  case (Some v)
  then have "k \<in> fst ` set m"
    using map_of_eq_None_iff [of m k] by auto
  with Some show ?thesis
    by (simp add: at_def)
qed

lemma qos_lookups_Inr_iff:
  "(\<exists>x. qos_lookups h r d = Inr x) \<longleftrightarrow>
     h \<in> fst ` set str_to_qos_history \<and> r \<in> fst ` set str_to_qos_reliability
     \<and> d \<in> fst ` set str_to_qos_durability"
  unfolding at_Inr_iff [symmetric] by (auto simp: qos_lookups_def split: sum.splits)

text \<open>
  The inputs that \<open>keyexpr_to_qos\<close> accepts, exactly: at least 3 parts, at least 2
  sub-parts of the third, the three strings keys of their tables, and a depth whose C
  string is white space, an optional sign and a non-empty run of digits up to its end,
  of a value within \<^verbatim>\<open>unsigned long\<close>. Every other input is refused, whatever precedes
  the number.
\<close>

lemma keyexpr_to_qos_accepts_iff:
  "keyexpr_to_qos s \<noteq> None \<longleftrightarrow>
     3 \<le> length (qos_parts s) \<and> 2 \<le> length (qos_history_parts s)
     \<and> qos_history_parts s ! 0 \<in> fst ` set str_to_qos_history
     \<and> qos_parts s ! 0 \<in> fst ` set str_to_qos_reliability
     \<and> qos_parts s ! 1 \<in> fst ` set str_to_qos_durability
     \<and> depth_text_ok (c_str (qos_history_parts s ! 1))"
proof -
  let ?dep = "c_str (qos_history_parts s ! 1)"
  let ?lk = "qos_lookups (qos_history_parts s ! 0) (qos_parts s ! 0) (qos_parts s ! 1)"
  obtain num endpos erange where st: "strtoul ?dep = (num, endpos, erange)"
    by (cases "strtoul ?dep") auto
  have ok: "depth_text_ok ?dep \<longleftrightarrow> \<not> (endpos = 0 \<or> endpos < length ?dep \<or> erange)"
    using strtoul_accepts [of ?dep] unfolding st by simp
  have "keyexpr_to_qos s \<noteq> None \<longleftrightarrow>
     3 \<le> length (qos_parts s) \<and> 2 \<le> length (qos_history_parts s)
     \<and> (\<exists>x. ?lk = Inr x) \<and> \<not> (endpos = 0 \<or> endpos < length ?dep \<or> erange)"
    using st [simplified]
    by (cases ?lk) (auto simp: keyexpr_to_qos_def Let_def not_less split: prod.splits)
  then show ?thesis
    unfolding ok qos_lookups_Inr_iff by blast
qed

lemma keyexpr_to_qos_refused_depths:
  "keyexpr_to_qos ''1:2:1, 5x'' = None" "keyexpr_to_qos ''1:2:1,+5x'' = None"
  "keyexpr_to_qos ''1:2:1,abc'' = None" "keyexpr_to_qos ''1:2:1, 18446744073709551616'' = None"
  "keyexpr_to_qos ''1:2:1,-18446744073709551616'' = None"
  "keyexpr_to_qos (''1:2:1,18446744073709551616'' @ [CHR 0x00]) = None"
  by code_simp+

text \<open>
  Claim C7. The depth sub-part below is the digit 5, a NUL and the letter x, so
  characters that are not numeric follow the number, and \<open>keyexpr_to_qos\<close> returns a
  profile of depth 5 for it where the claim, the comment on the test (junk after the
  number) and the comment on the function (no value if invalid) ask for no value:
  \<^verbatim>\<open>*endptr\<close> is the embedded NUL, which the test takes for the end of the string. The
  other inputs that the claim lists are refused, as the lemmas above show.
\<close>

theorem keyexpr_to_qos_accepts_junk_after_NUL:
  "qos_history_parts (''0:0:0,5'' @ [CHR 0x00] @ ''x'') ! 1 = ''5'' @ [CHR 0x00] @ ''x''
   \<and> keyexpr_to_qos (''0:0:0,5'' @ [CHR 0x00] @ ''x'') =
     Some \<lparr>history = 0, depth = 5, reliability = 0, durability = 0,
       deadline = \<lparr>sec = 0, nsec = 0\<rparr>, lifespan = \<lparr>sec = 0, nsec = 0\<rparr>, liveliness = 1,
       liveliness_lease_duration = \<lparr>sec = 0, nsec = 0\<rparr>\<rparr>"
  by code_simp

subsection \<open>Decoding a key expression\<close>


lemma str_to_entity_valid: "map_of str_to_entity p = Some t \<Longrightarrow> \<exists>tag. at entity_to_str t = Inr tag"
  by (auto simp: str_to_entity_def entity_to_str_def at_def split: if_splits)

lemma Entity_ctor_fields:
  "Entity_ctor eid t ni ti = Inr e \<Longrightarrow>
     entity_id e = eid \<and> entity_type e = t \<and> entity_node_info e = ni \<and> entity_topic_info e = ti"
  by (auto simp: Entity_ctor_def Let_def split: sum.splits)

lemma returned_Some: "returned r = Inr (Some e) \<longleftrightarrow> r = Inr e"
  by (auto simp: returned_def split: sum.splits)

lemma Entity_make_SomeD:
  assumes "Entity_make s = Inr (Some e)"
  shows "6 \<le> length (key_parts s) \<and> (\<forall>p\<in>set (key_parts s). p \<noteq> [])
    \<and> key_parts s ! 0 = ADMIN_SPACE
    \<and> map_of str_to_entity (key_parts s ! 3) = Some (entity_type e)
    \<and> stoul (key_parts s ! 1) = Inr (node_domain_id (entity_node_info e))
    \<and> entity_id e = key_parts s ! 2
    \<and> node_ns (entity_node_info e) = decoded_namespace (key_parts s ! 4)
    \<and> node_name (entity_node_info e) = demangle_name (key_parts s ! 5)
    \<and> node_enclave (entity_node_info e) = []
    \<and> (entity_type e = Node \<longrightarrow> entity_topic_info e = None)
    \<and> (entity_type e \<noteq> Node \<longrightarrow> 9 \<le> length (key_parts s)
          \<and> (\<exists>q. keyexpr_to_qos (key_parts s ! 8) = Some q
               \<and> entity_topic_info e = Some \<lparr>topic_name = demangle_name (key_parts s ! 6),
                    topic_type = key_parts s ! 7, topic_qos = q\<rparr>))"
  using assms
  by (auto simp: Entity_make_def Let_def list_ex_iff returned_Some decoded_namespace_def
      dest!: Entity_ctor_fields split: if_splits option.splits sum.splits)


lemma Entity_make_refuses:
  assumes "length (key_parts s) < 6 \<or> (\<exists>p\<in>set (key_parts s). p = [])
    \<or> key_parts s ! 0 \<noteq> ADMIN_SPACE \<or> map_of str_to_entity (key_parts s ! 3) = None"
  shows "Entity_make s = Inr None"
  using assms by (auto simp: Entity_make_def Let_def list_ex_iff)

lemma Entity_make_passes_checks:
  assumes "6 \<le> length (key_parts s)" "\<forall>p\<in>set (key_parts s). p \<noteq> []"
    "key_parts s ! 0 = ADMIN_SPACE" "map_of str_to_entity (key_parts s ! 3) = Some t"
  shows "Entity_make s =
    (case stoul (key_parts s ! 1) of
       Inl x \<Rightarrow> Inl x
     | Inr domain_id \<Rightarrow>
         if t \<noteq> Node then
           if length (key_parts s) < 9 then Inr None
           else
             (case keyexpr_to_qos (key_parts s ! 8) of
                None \<Rightarrow> Inr None
              | Some qos \<Rightarrow>
                  returned (Entity_ctor (key_parts s ! 2) t
                    \<lparr>node_domain_id = domain_id,
                       node_ns = decoded_namespace (key_parts s ! 4),
                       node_name = demangle_name (key_parts s ! 5), node_enclave = []\<rparr>
                    (Some \<lparr>topic_name = demangle_name (key_parts s ! 6),
                       topic_type = key_parts s ! 7, topic_qos = qos\<rparr>)))
         else
           returned (Entity_ctor (key_parts s ! 2) t
             \<lparr>node_domain_id = domain_id, node_ns = decoded_namespace (key_parts s ! 4),
                node_name = demangle_name (key_parts s ! 5), node_enclave = []\<rparr> None))"
  using assms
  by (cases "stoul (key_parts s ! 1)")
    (simp_all add: Entity_make_def Let_def list_ex_iff decoded_namespace_def
      split: option.splits)

lemma Entity_make_stoul_throws:
  assumes "6 \<le> length (key_parts s)" "\<forall>p\<in>set (key_parts s). p \<noteq> []"
    "key_parts s ! 0 = ADMIN_SPACE" "map_of str_to_entity (key_parts s ! 3) = Some t"
    "stoul (key_parts s ! 1) = Inl x"
  shows "Entity_make s = Inl x"
  using assms(5) by (simp add: Entity_make_passes_checks [OF assms(1-4)])

lemma Entity_make_short_non_node:
  assumes "length (key_parts s) < 9" "map_of str_to_entity (key_parts s ! 3) = Some t"
    "t \<noteq> Node" "stoul (key_parts s ! 1) = Inr d"
  shows "Entity_make s = Inr None"
proof (cases "6 \<le> length (key_parts s) \<and> (\<forall>p\<in>set (key_parts s). p \<noteq> [])
    \<and> key_parts s ! 0 = ADMIN_SPACE")
  case True
  then show ?thesis
    using assms by (simp add: Entity_make_passes_checks [where t = t])
next
  case False
  then show ?thesis
    by (intro Entity_make_refuses) auto
qed

text \<open>
  Claim C3. The first four conditions are refused with \<^verbatim>\<open>std::nullopt\<close>, as the lemmas
  above show, and so is a short token with a tag other than Node when \<^verbatim>\<open>std::stoul\<close>
  reads a number from segment 1. For the token below, of 6 segments with the tag of a
  publisher, the domain id is read before the number of segments is tested, and the
  exception of \<^verbatim>\<open>std::stoul\<close> leaves the function.
\<close>

theorem Entity_make_short_non_node_throws:
  "length (key_parts ''@ros2_lv/x/abc/MP/_/mynode'') = 6
   \<and> key_parts ''@ros2_lv/x/abc/MP/_/mynode'' ! 3 = PUB_STR
   \<and> Entity_make ''@ros2_lv/x/abc/MP/_/mynode'' = Inl Invalid_argument"
  by code_simp

text \<open>
  Claim C4. Both tokens pass the tests on the number of segments, on empty segments,
  on the admin space and on the entity tag. Segment 1 of the first holds no number and
  that of the second is 2 to the power 64; the function does not return: \<^verbatim>\<open>std::invalid_argument\<close>
  and \<^verbatim>\<open>std::out_of_range\<close> leave it.
\<close>

theorem Entity_make_domain_id_throws:
  "Entity_make ''@ros2_lv/abc/id/NN/_/node'' = Inl Invalid_argument
   \<and> Entity_make ''@ros2_lv/18446744073709551616/id/NN/_/node'' = Inl Out_of_range"
  by code_simp

text \<open>
  \<^verbatim>\<open>std::stoul\<close> reads a number at the head of segment 1 and ignores the rest, so a
  domain id followed by other characters is accepted.
\<close>

lemma Entity_make_domain_id_prefix:
  "Entity_make ''@ros2_lv/12abc/id/NN/_/node'' =
     Inr (Some \<lparr>entity_id = ''id'', entity_type = Node,
       entity_node_info = \<lparr>node_domain_id = 12, node_ns = ''/'', node_name = ''node'',
         node_enclave = []\<rparr>,
       entity_topic_info = None, entity_keyexpr = ''@ros2_lv/12/id/NN/_/node''\<rparr>)"
  by code_simp

text \<open>
  Claim C5, as the code has it. For every token on which \<open>Entity_make\<close> succeeds, the
  namespace of the entity is \<open>/\<close> when segment 4 is \<open>_\<close>, and otherwise \<open>/\<close> followed
  by segment 4, which is not demangled.
\<close>

theorem namespace_decoding:
  "Entity_make s = Inr (Some e) \<Longrightarrow>
     node_ns (entity_node_info e) =
       (if key_parts s ! 4 = ''_'' then ''/'' else ''/'' @ key_parts s ! 4)"
  by (drule Entity_make_SomeD) (simp add: decoded_namespace_def)

lemma Entity_make_example:
  "Entity_make ''@ros2_lv/0/id/NN/a%b/n%m'' =
     Inr (Some \<lparr>entity_id = ''id'', entity_type = Node,
       entity_node_info = \<lparr>node_domain_id = 0, node_ns = ''/a%b'', node_name = ''n/m'',
         node_enclave = []\<rparr>,
       entity_topic_info = None, entity_keyexpr = ''@ros2_lv/0/id/NN/a%b/n%m''\<rparr>)"
  by code_simp

theorem namespace_decoding_witness:
  "key_parts ''@ros2_lv/0/id/NN/a%b/n%m'' ! 4 = ''a%b''
   \<and> (\<exists>e. Entity_make ''@ros2_lv/0/id/NN/a%b/n%m'' = Inr (Some e)
         \<and> node_ns (entity_node_info e) = ''/a%b'')"
proof -
  have p: "key_parts ''@ros2_lv/0/id/NN/a%b/n%m'' ! 4 = ''a%b''"
    by code_simp
  from namespace_decoding [OF Entity_make_example] p Entity_make_example show ?thesis
    by simp
qed

text \<open>
  Claim C5 as it is written says that a segment 4 other than \<open>_\<close> is the namespace as
  it is. For segment 4 \<open>foo\<close> the namespace is \<open>/foo\<close>.
\<close>

theorem namespace_decoding_counterexample:
  "key_parts ''@ros2_lv/0/id/NN/foo/n'' ! 4 = ''foo''
   \<and> Entity_make ''@ros2_lv/0/id/NN/foo/n'' =
     Inr (Some \<lparr>entity_id = ''id'', entity_type = Node,
       entity_node_info = \<lparr>node_domain_id = 0, node_ns = ''/foo'', node_name = ''n'',
         node_enclave = []\<rparr>,
       entity_topic_info = None, entity_keyexpr = ''@ros2_lv/0/id/NN/foo/n''\<rparr>)"
  by code_simp

lemma Entity_ctor_enclave:
  "map_sum (\<lambda>x. x) keyexpr (Entity_ctor eid t (ni\<lparr>node_enclave := x\<rparr>) ti)
     = map_sum (\<lambda>x. x) keyexpr (Entity_ctor eid t ni ti)"
  by (simp add: Entity_ctor_def Let_def keyexpr_def split: sum.splits)

text \<open>
  Claim C9. Every entity that \<open>Entity_make\<close> returns for a key expression has the empty
  enclave; and the key expression that the constructor builds is the same whatever
  the enclave of the node is, so that no decoder can recover it.
\<close>

theorem parsed_enclave_empty:
  "(Entity_make s = Inr (Some e) \<longrightarrow> node_enclave (entity_node_info e) = [])
   \<and> map_sum (\<lambda>x. x) keyexpr (Entity_ctor eid t (ni\<lparr>node_enclave := x\<rparr>) ti)
       = map_sum (\<lambda>x. x) keyexpr (Entity_ctor eid t ni ti)"
  using Entity_make_SomeD [of s e] Entity_ctor_enclave by blast

lemma Entity_make_example2:
  "Entity_make ''@ros2_lv/0/abc/NN/_/mynode'' =
     Inr (Some \<lparr>entity_id = ''abc'', entity_type = Node,
       entity_node_info = \<lparr>node_domain_id = 0, node_ns = ''/'', node_name = ''mynode'',
         node_enclave = []\<rparr>,
       entity_topic_info = None, entity_keyexpr = ''@ros2_lv/0/abc/NN/_/mynode''\<rparr>)"
  by code_simp

theorem parsed_enclave_empty_witness:
  "\<exists>e. Entity_make ''@ros2_lv/0/abc/NN/_/mynode'' = Inr (Some e)
     \<and> node_enclave (entity_node_info e) = []"
  using parsed_enclave_empty [of "''@ros2_lv/0/abc/NN/_/mynode''"] Entity_make_example2
  by blast

subsection \<open>Excess segments, and the format of the key expression\<close>



lemma Entity_ctor_valid:
  assumes "t \<in> fst ` set entity_to_str"
  shows "\<exists>tag. map_of entity_to_str t = Some tag \<and> length tag = 2 \<and> CHR ''/'' \<notin> set tag
    \<and> map_of str_to_entity tag = Some t
    \<and> Entity_ctor eid t ni ti = Inr \<lparr>entity_id = eid, entity_type = t, entity_node_info = ni,
        entity_topic_info = ti,
        entity_keyexpr = ADMIN_SPACE @ ''/'' @ to_string_nat (unat (node_domain_id ni)) @ ''/''
          @ eid @ ''/'' @ tag @ node_ns ni @ (if node_ns ni = ''/'' then ''_/'' else ''/'')
          @ mangle_name (node_name ni)
          @ (case ti of None \<Rightarrow> []
             | Some tp \<Rightarrow> ''/'' @ mangle_name (topic_name tp) @ ''/'' @ topic_type tp @ ''/''
                 @ qos_to_keyexpr (topic_qos tp))\<rparr>"
  using assms
  by (auto simp: entity_to_str_def str_to_entity_def Entity_ctor_def at_def Let_def
      NODE_STR_def PUB_STR_def SUB_STR_def SRV_STR_def CLI_STR_def split: option.splits)




text \<open>
  Claim C2. For each of the five entity types the constructor returns an entity, and
  its key expression is the admin space, the decimal domain id, the id and the tag of
  two characters, each followed by a slash except the tag; then the namespace,
  followed by \<open>_/\<close> when it is \<open>/\<close> and by a slash otherwise; then the mangled node
  name; and with a topic, a slash, the mangled topic name, a slash, the topic type as
  it is, a slash, and reliability, durability and history in decimal between colons,
  a comma and the depth. The accessor returns the stored string.
\<close>

theorem keyexpr_format:
  assumes "t \<in> fst ` set entity_to_str"
  shows "\<exists>e tag. Entity_ctor eid t ni ti = Inr e \<and> map_of entity_to_str t = Some tag
    \<and> length tag = 2 \<and> keyexpr e = entity_keyexpr e
    \<and> keyexpr e = ''@ros2_lv'' @ ''/'' @ to_string_nat (unat (node_domain_id ni)) @ ''/''
        @ eid @ ''/'' @ tag
        @ (if node_ns ni = ''/'' then node_ns ni @ ''_/'' else node_ns ni @ ''/'')
        @ mangle_name (node_name ni)
        @ (case ti of
             None \<Rightarrow> []
           | Some tp \<Rightarrow>
               ''/'' @ mangle_name (topic_name tp) @ ''/'' @ topic_type tp @ ''/''
               @ to_string_int (reliability (topic_qos tp)) @ '':''
               @ to_string_int (durability (topic_qos tp)) @ '':''
               @ to_string_int (history (topic_qos tp)) @ '',''
               @ to_string_nat (unat (depth (topic_qos tp))))"
proof -
  from Entity_ctor_valid [OF assms, of eid ni ti]
  obtain tag where tag: "map_of entity_to_str t = Some tag" "length tag = 2"
    and e: "Entity_ctor eid t ni ti = Inr \<lparr>entity_id = eid, entity_type = t,
        entity_node_info = ni, entity_topic_info = ti,
        entity_keyexpr = ADMIN_SPACE @ ''/'' @ to_string_nat (unat (node_domain_id ni)) @ ''/''
          @ eid @ ''/'' @ tag @ node_ns ni @ (if node_ns ni = ''/'' then ''_/'' else ''/'')
          @ mangle_name (node_name ni)
          @ (case ti of None \<Rightarrow> []
             | Some tp \<Rightarrow> ''/'' @ mangle_name (topic_name tp) @ ''/'' @ topic_type tp @ ''/''
                 @ qos_to_keyexpr (topic_qos tp))\<rparr>"
    by blast
  show ?thesis
    unfolding e using tag
    by (simp add: keyexpr_def ADMIN_SPACE_def qos_to_keyexpr_eq split: option.splits)
qed

theorem keyexpr_format_witness:
  "Publisher \<in> fst ` set entity_to_str
   \<and> (\<exists>e. Entity_ctor ''q1w2e3r4t5y6'' Publisher
        \<lparr>node_domain_id = 0, node_ns = ''/'', node_name = ''talker'', node_enclave = ''e''\<rparr>
        (Some \<lparr>topic_name = ''/chatter'', topic_type = ''std_msgs::msg::String'',
           topic_qos = \<lparr>history = 2, depth = 10, reliability = 2, durability = 1,
             deadline = \<lparr>sec = 0, nsec = 0\<rparr>, lifespan = \<lparr>sec = 0, nsec = 0\<rparr>,
             liveliness = 1, liveliness_lease_duration = \<lparr>sec = 0, nsec = 0\<rparr>\<rparr>\<rparr>) = Inr e
      \<and> keyexpr e =
        ''@ros2_lv/0/q1w2e3r4t5y6/MP/_/talker/%chatter/std_msgs::msg::String/2:1:2,10'')"
proof -
  have t: "Publisher \<in> fst ` set entity_to_str"
    by (simp add: entity_to_str_def)
  let ?ni = "\<lparr>node_domain_id = 0, node_ns = ''/'', node_name = ''talker'',
    node_enclave = ''e''\<rparr>"
  let ?ti = "Some \<lparr>topic_name = ''/chatter'', topic_type = ''std_msgs::msg::String'',
           topic_qos = \<lparr>history = 2, depth = 10, reliability = 2, durability = 1,
             deadline = \<lparr>sec = 0, nsec = 0\<rparr>, lifespan = \<lparr>sec = 0, nsec = 0\<rparr>,
             liveliness = 1, liveliness_lease_duration = \<lparr>sec = 0, nsec = 0\<rparr>\<rparr>\<rparr>"
  have n: "to_string_nat 0 = ''0''" "to_string_nat 10 = ''10''"
    "to_string_int 2 = ''2''" "to_string_int 1 = ''1''"
    by code_simp+
  have tag: "map_of entity_to_str Publisher = Some ''MP''"
    by (simp add: entity_to_str_def PUB_STR_def)
  from keyexpr_format [OF t, of "''q1w2e3r4t5y6''" ?ni ?ti]
  have "\<exists>e. Entity_ctor ''q1w2e3r4t5y6'' Publisher ?ni ?ti = Inr e \<and> keyexpr e =
        ''@ros2_lv/0/q1w2e3r4t5y6/MP/_/talker/%chatter/std_msgs::msg::String/2:1:2,10''"
    by (auto simp: n tag SLASH_REPLACEMENT_def)
  with t show ?thesis
    by blast
qed

subsection \<open>Encoding and decoding an entity\<close>

lemma qos_to_keyexpr_free: "CHR ''/'' \<notin> set (qos_to_keyexpr q)"
  by (simp add: qos_to_keyexpr_eq to_string_int_free to_string_nat_free)

lemma qos_to_keyexpr_not_Nil: "qos_to_keyexpr q \<noteq> []"
  by (simp add: qos_to_keyexpr_eq to_string_int_not_Nil)

lemma qos_to_keyexpr_decoded_defaults: "qos_to_keyexpr (decoded_defaults q) = qos_to_keyexpr q"
  by (simp add: qos_to_keyexpr_eq decoded_defaults_def)

lemma decoded_defaults_in_tables:
  "reliability (decoded_defaults q) = reliability q" "durability (decoded_defaults q) = durability q"
  "history (decoded_defaults q) = history q" "depth (decoded_defaults q) = depth q"
  by (simp_all add: decoded_defaults_def)

lemma ADMIN_SPACE_free: "CHR ''/'' \<notin> set ADMIN_SPACE" "ADMIN_SPACE \<noteq> []"
  by (simp_all add: ADMIN_SPACE_def)

lemma key_parts_six:
  assumes "CHR ''/'' \<notin> set p0" "CHR ''/'' \<notin> set p1" "CHR ''/'' \<notin> set p2"
    "CHR ''/'' \<notin> set p3" "CHR ''/'' \<notin> set p4" "CHR ''/'' \<notin> set p5"
  shows "key_parts (p0 @ ''/'' @ p1 @ ''/'' @ p2 @ ''/'' @ p3 @ ''/'' @ p4 @ ''/'' @ p5)
    = [p0, p1, p2, p3, p4, p5]"
  using assms by (simp add: split_keyexpr_segments segments_append segments_no_delim)

lemma key_parts_nine:
  assumes "CHR ''/'' \<notin> set p0" "CHR ''/'' \<notin> set p1" "CHR ''/'' \<notin> set p2"
    "CHR ''/'' \<notin> set p3" "CHR ''/'' \<notin> set p4" "CHR ''/'' \<notin> set p5"
    "CHR ''/'' \<notin> set p6" "CHR ''/'' \<notin> set p7" "CHR ''/'' \<notin> set p8"
  shows "key_parts (p0 @ ''/'' @ p1 @ ''/'' @ p2 @ ''/'' @ p3 @ ''/'' @ p4 @ ''/'' @ p5
      @ ''/'' @ p6 @ ''/'' @ p7 @ ''/'' @ p8)
    = [p0, p1, p2, p3, p4, p5, p6, p7, p8]"
  using assms by (simp add: split_keyexpr_segments segments_append segments_no_delim)

lemma namespace_segment:
  assumes "ns = ''/'' \<or> (\<exists>s. ns = CHR ''/'' # s \<and> s \<noteq> [] \<and> s \<noteq> ''_'' \<and> CHR ''/'' \<notin> set s)"
  shows "ns @ (if ns = ''/'' then ''_/'' else ''/'') = ''/'' @ namespace_segment ns @ ''/''"
    and "CHR ''/'' \<notin> set (namespace_segment ns)" and "namespace_segment ns \<noteq> []"
    and "decoded_namespace (namespace_segment ns) = ns"
  using assms by (auto simp: namespace_segment_def decoded_namespace_def)



lemma entity_tag:
  assumes "t \<in> fst ` set entity_to_str"
  shows "\<exists>tag. map_of entity_to_str t = Some tag \<and> length tag = 2 \<and> CHR ''/'' \<notin> set tag
    \<and> map_of str_to_entity tag = Some t"
  using Entity_ctor_valid [OF assms, of "[]" undefined None] by blast

lemma Entity_ctor_tag:
  assumes "map_of entity_to_str t = Some tag"
  shows "Entity_ctor eid t ni ti = Inr \<lparr>entity_id = eid, entity_type = t,
        entity_node_info = ni, entity_topic_info = ti,
        entity_keyexpr = ADMIN_SPACE @ ''/'' @ to_string_nat (unat (node_domain_id ni)) @ ''/''
          @ eid @ ''/'' @ tag @ node_ns ni @ (if node_ns ni = ''/'' then ''_/'' else ''/'')
          @ mangle_name (node_name ni)
          @ (case ti of None \<Rightarrow> []
             | Some tp \<Rightarrow> ''/'' @ mangle_name (topic_name tp) @ ''/'' @ topic_type tp @ ''/''
                 @ qos_to_keyexpr (topic_qos tp))\<rparr>"
  using assms by (simp add: Entity_ctor_def at_def Let_def split: option.splits)

lemma namespace_head:
  assumes "ns = ''/'' \<or> (\<exists>s. ns = CHR ''/'' # s \<and> s \<noteq> [] \<and> s \<noteq> ''_'' \<and> CHR ''/'' \<notin> set s)"
  shows "a @ ns @ (if ns = ''/'' then ''_/'' else ''/'') @ rest
    = a @ ''/'' @ namespace_segment ns @ ''/'' @ rest"
  using assms by (auto simp: namespace_segment_def)


lemma Entity_ctor_key:
  assumes tag: "map_of entity_to_str t = Some tag"
    and ns: "node_ns ni = ''/''
      \<or> (\<exists>s. node_ns ni = CHR ''/'' # s \<and> s \<noteq> [] \<and> s \<noteq> ''_'' \<and> CHR ''/'' \<notin> set s)"
  shows "Entity_ctor eid t ni None = Inr \<lparr>entity_id = eid, entity_type = t,
        entity_node_info = ni, entity_topic_info = None,
        entity_keyexpr = ADMIN_SPACE @ ''/'' @ to_string_nat (unat (node_domain_id ni)) @ ''/''
          @ eid @ ''/'' @ tag @ ''/'' @ namespace_segment (node_ns ni) @ ''/''
          @ mangle_name (node_name ni)\<rparr>"
    and "Entity_ctor eid t ni (Some tp) = Inr \<lparr>entity_id = eid, entity_type = t,
        entity_node_info = ni, entity_topic_info = Some tp,
        entity_keyexpr = ADMIN_SPACE @ ''/'' @ to_string_nat (unat (node_domain_id ni)) @ ''/''
          @ eid @ ''/'' @ tag @ ''/'' @ namespace_segment (node_ns ni) @ ''/''
          @ mangle_name (node_name ni) @ ''/'' @ mangle_name (topic_name tp) @ ''/''
          @ topic_type tp @ ''/'' @ qos_to_keyexpr (topic_qos tp)\<rparr>"
proof -
  have h: "\<And>rest. tag @ node_ns ni @ (if node_ns ni = ''/'' then ''_/'' else ''/'') @ rest
      = tag @ ''/'' @ namespace_segment (node_ns ni) @ ''/'' @ rest"
    using ns by (rule namespace_head)
  show "Entity_ctor eid t ni None = Inr \<lparr>entity_id = eid, entity_type = t,
        entity_node_info = ni, entity_topic_info = None,
        entity_keyexpr = ADMIN_SPACE @ ''/'' @ to_string_nat (unat (node_domain_id ni)) @ ''/''
          @ eid @ ''/'' @ tag @ ''/'' @ namespace_segment (node_ns ni) @ ''/''
          @ mangle_name (node_name ni)\<rparr>"
    unfolding Entity_ctor_tag [OF tag] option.case append_Nil2 append_assoc h ..
  show "Entity_ctor eid t ni (Some tp) = Inr \<lparr>entity_id = eid, entity_type = t,
        entity_node_info = ni, entity_topic_info = Some tp,
        entity_keyexpr = ADMIN_SPACE @ ''/'' @ to_string_nat (unat (node_domain_id ni)) @ ''/''
          @ eid @ ''/'' @ tag @ ''/'' @ namespace_segment (node_ns ni) @ ''/''
          @ mangle_name (node_name ni) @ ''/'' @ mangle_name (topic_name tp) @ ''/''
          @ topic_type tp @ ''/'' @ qos_to_keyexpr (topic_qos tp)\<rparr>"
    unfolding Entity_ctor_tag [OF tag] option.case append_Nil2 append_assoc h ..
qed


lemma Entity_make_six:
  assumes kp: "key_parts k = [ADMIN_SPACE, p1, p2, p3, p4, p5]"
    and ne: "p1 \<noteq> []" "p2 \<noteq> []" "p3 \<noteq> []" "p4 \<noteq> []" "p5 \<noteq> []"
    and t: "map_of str_to_entity p3 = Some Node" and d: "stoul p1 = Inr d"
  shows "Entity_make k = returned (Entity_ctor p2 Node
    \<lparr>node_domain_id = d, node_ns = decoded_namespace p4, node_name = demangle_name p5,
       node_enclave = []\<rparr> None)"
  using Entity_make_passes_checks [of k Node]
  by (simp add: kp ne t d ADMIN_SPACE_free)

lemma Entity_make_nine:
  assumes kp: "key_parts k = [ADMIN_SPACE, p1, p2, p3, p4, p5, p6, p7, p8]"
    and ne: "p1 \<noteq> []" "p2 \<noteq> []" "p3 \<noteq> []" "p4 \<noteq> []" "p5 \<noteq> []"
      "p6 \<noteq> []" "p7 \<noteq> []" "p8 \<noteq> []"
    and t: "map_of str_to_entity p3 = Some t" "t \<noteq> Node" and d: "stoul p1 = Inr d"
    and q: "keyexpr_to_qos p8 = Some q"
  shows "Entity_make k = returned (Entity_ctor p2 t
    \<lparr>node_domain_id = d, node_ns = decoded_namespace p4, node_name = demangle_name p5,
       node_enclave = []\<rparr>
    (Some \<lparr>topic_name = demangle_name p6, topic_type = p7, topic_qos = q\<rparr>))"
  using Entity_make_passes_checks [of k t]
  by (simp add: kp ne t d q ADMIN_SPACE_free)


lemma Entity_ctor_same_key:
  assumes "Entity_ctor eid t ni ti = Inr e"
    and "node_domain_id ni' = node_domain_id ni" "node_ns ni' = node_ns ni"
      "node_name ni' = node_name ni"
    and "rel_option (\<lambda>a b. topic_name b = topic_name a \<and> topic_type b = topic_type a
      \<and> qos_to_keyexpr (topic_qos b) = qos_to_keyexpr (topic_qos a)) ti ti'"
  shows "Entity_ctor eid t ni' ti' =
    Inr (e\<lparr>entity_node_info := ni', entity_topic_info := ti'\<rparr>)"
  using assms
  by (cases ti; cases ti') (auto simp: Entity_ctor_def Let_def split: sum.splits)

text \<open>
  The round trip that the code does: for an entity type of the table, an id that is
  not empty and has no slash, a namespace that is \<open>/\<close> or \<open>/\<close> followed by one non-empty
  segment without a slash and other than \<open>_\<close>, a node name that is not empty and has no
  \<open>%\<close>, topic information exactly when the type is not Node, and in it a topic name
  that is not empty and has no \<open>%\<close>, a topic type that is not empty and has no slash,
  and reliability, durability and history among the values of the tables, the
  constructor returns an entity, and \<open>Entity_make\<close> on its key expression returns that
  entity with the enclave emptied and liveliness, liveliness lease duration, deadline
  and lifespan at the fixed defaults.
\<close>

lemma Entity_ctor_make_roundtrip:
  assumes t: "t \<in> fst ` set entity_to_str"
    and eid: "eid \<noteq> []" "CHR ''/'' \<notin> set eid"
    and ns: "node_ns ni = ''/''
      \<or> (\<exists>s. node_ns ni = CHR ''/'' # s \<and> s \<noteq> [] \<and> s \<noteq> ''_'' \<and> CHR ''/'' \<notin> set s)"
    and name: "node_name ni \<noteq> []" "CHR ''%'' \<notin> set (node_name ni)"
    and ti: "t = Node \<longleftrightarrow> ti = None"
    and tp: "\<forall>tp. ti = Some tp \<longrightarrow>
      topic_name tp \<noteq> [] \<and> CHR ''%'' \<notin> set (topic_name tp)
      \<and> topic_type tp \<noteq> [] \<and> CHR ''/'' \<notin> set (topic_type tp)
      \<and> reliability (topic_qos tp) \<in> snd ` set str_to_qos_reliability
      \<and> durability (topic_qos tp) \<in> snd ` set str_to_qos_durability
      \<and> history (topic_qos tp) \<in> snd ` set str_to_qos_history"
  shows "\<exists>e. Entity_ctor eid t ni ti = Inr e
    \<and> Entity_make (keyexpr e) =
        Inr (Some (e\<lparr>entity_node_info := ni\<lparr>node_enclave := []\<rparr>,
          entity_topic_info :=
            map_option (\<lambda>tp. tp\<lparr>topic_qos := decoded_defaults (topic_qos tp)\<rparr>) ti\<rparr>))"
proof -
  let ?dec = "to_string_nat (unat (node_domain_id ni))"
  let ?seg = "namespace_segment (node_ns ni)"
  let ?nm = "mangle_name (node_name ni)"
  let ?ni' = "\<lparr>node_domain_id = node_domain_id ni, node_ns = decoded_namespace ?seg,
    node_name = demangle_name ?nm, node_enclave = []\<rparr>"
  from entity_tag [OF t]
  obtain tag where tag: "map_of entity_to_str t = Some tag" "CHR ''/'' \<notin> set tag"
      "length tag = 2" "map_of str_to_entity tag = Some t"
    by blast
  have tagne: "tag \<noteq> []"
    using tag(3) by auto
  note nsf = namespace_segment [OF ns]
  have ni': "?ni' = ni\<lparr>node_enclave := []\<rparr>"
    using name(2) by (simp add: nsf(4) demangle_mangle_name SLASH_REPLACEMENT_def)
  have st: "stoul ?dec = Inr (node_domain_id ni)"
    by (rule stoul_to_string_nat)
  have nmne: "?nm \<noteq> []"
    using name(1) by (simp add: mangle_name_eq_Nil)
  show ?thesis
  proof (cases ti)
    case None
    with ti have tN: "t = Node"
      by simp
    define k where "k = ADMIN_SPACE @ ''/'' @ ?dec @ ''/'' @ eid @ ''/'' @ tag @ ''/'' @ ?seg
      @ ''/'' @ ?nm"
    define e where "e = \<lparr>entity_id = eid, entity_type = t, entity_node_info = ni,
      entity_topic_info = None, entity_keyexpr = k\<rparr>"
    have e: "Entity_ctor eid t ni None = Inr e"
      unfolding e_def k_def using tag(1) ns by (rule Entity_ctor_key(1))
    have kp: "key_parts k = [ADMIN_SPACE, ?dec, eid, tag, ?seg, ?nm]"
      unfolding k_def
      using ADMIN_SPACE_free(1) to_string_nat_free(3) eid(2) tag(2) nsf(2)
        slash_notin_mangle_name
      by (rule key_parts_six)
    have "Entity_make k = returned (Entity_ctor eid Node ?ni' None)"
      using kp to_string_nat_not_Nil eid(1) tagne nsf(3) nmne tag(4) [unfolded tN] st
      by (rule Entity_make_six)
    also have "Entity_ctor eid Node ?ni' None =
        Inr (e\<lparr>entity_node_info := ?ni', entity_topic_info := None\<rparr>)"
      using e [unfolded tN] by (rule Entity_ctor_same_key) (simp_all add: ni')
    finally have "Entity_make (keyexpr e) =
        Inr (Some (e\<lparr>entity_node_info := ni\<lparr>node_enclave := []\<rparr>, entity_topic_info := None\<rparr>))"
      by (simp add: returned_def ni' keyexpr_def e_def)
    with e None show ?thesis
      by simp
  next
    case (Some tp)
    with ti have tN: "t \<noteq> Node"
      by simp
    from tp Some have tpf: "topic_name tp \<noteq> []" "CHR ''%'' \<notin> set (topic_name tp)"
      "topic_type tp \<noteq> []" "CHR ''/'' \<notin> set (topic_type tp)"
      and q: "reliability (topic_qos tp) \<in> snd ` set str_to_qos_reliability"
        "durability (topic_qos tp) \<in> snd ` set str_to_qos_durability"
        "history (topic_qos tp) \<in> snd ` set str_to_qos_history"
      by simp_all
    let ?tn = "mangle_name (topic_name tp)"
    let ?qs = "qos_to_keyexpr (topic_qos tp)"
    let ?tp' = "\<lparr>topic_name = demangle_name ?tn, topic_type = topic_type tp,
      topic_qos = decoded_defaults (topic_qos tp)\<rparr>"
    have tp': "?tp' = tp\<lparr>topic_qos := decoded_defaults (topic_qos tp)\<rparr>"
      using tpf(2) by (simp add: demangle_mangle_name SLASH_REPLACEMENT_def)
    define k where "k = ADMIN_SPACE @ ''/'' @ ?dec @ ''/'' @ eid @ ''/'' @ tag @ ''/'' @ ?seg
      @ ''/'' @ ?nm @ ''/'' @ ?tn @ ''/'' @ topic_type tp @ ''/'' @ ?qs"
    define e where "e = \<lparr>entity_id = eid, entity_type = t, entity_node_info = ni,
      entity_topic_info = Some tp, entity_keyexpr = k\<rparr>"
    have e: "Entity_ctor eid t ni (Some tp) = Inr e"
      unfolding e_def k_def using tag(1) ns by (rule Entity_ctor_key(2))
    have kp: "key_parts k = [ADMIN_SPACE, ?dec, eid, tag, ?seg, ?nm, ?tn, topic_type tp, ?qs]"
      unfolding k_def
      using ADMIN_SPACE_free(1) to_string_nat_free(3) eid(2) tag(2) nsf(2)
        slash_notin_mangle_name slash_notin_mangle_name tpf(4) qos_to_keyexpr_free
      by (rule key_parts_nine)
    have tnne: "?tn \<noteq> []"
      using tpf(1) by (simp add: mangle_name_eq_Nil)
    have dq: "keyexpr_to_qos ?qs = Some (decoded_defaults (topic_qos tp))"
      using q by (rule keyexpr_to_qos_qos_to_keyexpr)
    have "Entity_make k = returned (Entity_ctor eid t ?ni' (Some ?tp'))"
      using kp to_string_nat_not_Nil eid(1) tagne nsf(3) nmne tnne tpf(3)
        qos_to_keyexpr_not_Nil tag(4) tN st dq
      by (rule Entity_make_nine)
    also have "Entity_ctor eid t ?ni' (Some ?tp') =
        Inr (e\<lparr>entity_node_info := ?ni', entity_topic_info := Some ?tp'\<rparr>)"
      using e by (rule Entity_ctor_same_key)
        (simp_all add: ni' tp' qos_to_keyexpr_decoded_defaults)
    finally have "Entity_make (keyexpr e) =
        Inr (Some (e\<lparr>entity_node_info := ni\<lparr>node_enclave := []\<rparr>,
          entity_topic_info := Some (tp\<lparr>topic_qos := decoded_defaults (topic_qos tp)\<rparr>)\<rparr>))"
      by (simp add: returned_def ni' tp' keyexpr_def e_def)
    with e Some show ?thesis
      by simp
  qed
qed

subsection \<open>Entities made from facts\<close>

lemma hex_char_table: "list_all (\<lambda>d. hex_char d \<noteq> CHR ''/'') [0..<16]"
  by code_simp

lemma hex_char_free: "d < 16 \<Longrightarrow> hex_char d \<noteq> CHR ''/''"
  using hex_char_table by (simp add: list_all_iff)

lemma to_hex_free: "CHR ''/'' \<notin> set (to_hex n)"
proof (induction n rule: to_hex.induct)
  case (1 n)
  show ?case
  proof (cases "n < 16")
    case True
    then show ?thesis
      using hex_char_free [of n] by (subst to_hex.simps) auto
  next
    case False
    with "1.IH" show ?thesis
      using hex_char_free [of "n mod 16"] by (subst to_hex.simps) auto
  qed
qed

lemma to_hex_not_Nil: "to_hex n \<noteq> []"
  by (subst to_hex.simps) simp

lemma zid_to_str_segment:
  "CHR ''/'' \<notin> set (zid_to_str zid)" "zid \<noteq> [] \<Longrightarrow> zid_to_str zid \<noteq> []"
  by (auto simp: zid_to_str_def to_hex_free to_hex_not_Nil)

lemma Entity_make_zid_never_throws: "\<exists>r. Entity_make_zid zid t ni ti = Inr r"
  by (auto simp: Entity_make_zid_def returned_def Entity_ctor_def at_def Let_def
      split: option.splits)

lemma Entity_make_zid_SomeD:
  assumes "Entity_make_zid zid t ni ti = Inr (Some e)"
  shows "t \<in> fst ` set entity_to_str \<and> node_ns ni \<noteq> [] \<and> node_name ni \<noteq> []
    \<and> (t \<noteq> Node \<longrightarrow> ti \<noteq> None) \<and> Entity_ctor (zid_to_str zid) t ni ti = Inr e"
  using assms
  by (auto simp: Entity_make_zid_def returned_Some map_of_eq_None_iff split: if_splits)

text \<open>
  An entity that the factory makes from a session id of at least one byte has an id
  that is one non-empty segment, so the round trip asks nothing of the id.
\<close>

lemma made_entity_roundtrip:
  assumes made: "Entity_make_zid zid t ni ti = Inr (Some e)" and zid: "zid \<noteq> []"
    and ns: "node_ns ni = ''/''
      \<or> (\<exists>s. node_ns ni = CHR ''/'' # s \<and> s \<noteq> [] \<and> s \<noteq> ''_'' \<and> CHR ''/'' \<notin> set s)"
    and name: "CHR ''%'' \<notin> set (node_name ni)"
    and ti: "t = Node \<longrightarrow> ti = None"
    and tp: "\<forall>tp. ti = Some tp \<longrightarrow>
      topic_name tp \<noteq> [] \<and> CHR ''%'' \<notin> set (topic_name tp)
      \<and> topic_type tp \<noteq> [] \<and> CHR ''/'' \<notin> set (topic_type tp)
      \<and> reliability (topic_qos tp) \<in> snd ` set str_to_qos_reliability
      \<and> durability (topic_qos tp) \<in> snd ` set str_to_qos_durability
      \<and> history (topic_qos tp) \<in> snd ` set str_to_qos_history"
  shows "Entity_make (keyexpr e) =
        Inr (Some (e\<lparr>entity_node_info := ni\<lparr>node_enclave := []\<rparr>,
          entity_topic_info :=
            map_option (\<lambda>tp. tp\<lparr>topic_qos := decoded_defaults (topic_qos tp)\<rparr>) ti\<rparr>))"
proof -
  from Entity_make_zid_SomeD [OF made]
  have t: "t \<in> fst ` set entity_to_str" and nm: "node_name ni \<noteq> []"
    and ti': "t = Node \<longleftrightarrow> ti = None"
    and e: "Entity_ctor (zid_to_str zid) t ni ti = Inr e"
    using ti by auto
  from Entity_ctor_make_roundtrip [OF t zid_to_str_segment(2) [OF zid] zid_to_str_segment(1)
      ns nm name ti' tp] e
  show ?thesis
    by simp
qed

text \<open>An instance of the round trip, with a namespace of one segment.\<close>

lemma Entity_ctor_make_roundtrip_example:
  "\<exists>e. Entity_ctor ''q1w2e3r4t5y6'' Publisher
        \<lparr>node_domain_id = 42, node_ns = ''/robot1'', node_name = ''talker'',
           node_enclave = ''/enclave''\<rparr>
        (Some \<lparr>topic_name = ''/chatter'', topic_type = ''std_msgs::msg::String'',
           topic_qos = \<lparr>history = 2, depth = 10, reliability = 2, durability = 1,
             deadline = \<lparr>sec = 5, nsec = 0\<rparr>, lifespan = \<lparr>sec = 0, nsec = 7\<rparr>,
             liveliness = 2, liveliness_lease_duration = \<lparr>sec = 1, nsec = 1\<rparr>\<rparr>\<rparr>) = Inr e
     \<and> Entity_make (keyexpr e) =
        Inr (Some (e\<lparr>entity_node_info :=
            \<lparr>node_domain_id = 42, node_ns = ''/robot1'', node_name = ''talker'',
               node_enclave = []\<rparr>,
          entity_topic_info :=
            Some \<lparr>topic_name = ''/chatter'', topic_type = ''std_msgs::msg::String'',
              topic_qos = \<lparr>history = 2, depth = 10, reliability = 2, durability = 1,
                deadline = \<lparr>sec = 0, nsec = 0\<rparr>, lifespan = \<lparr>sec = 0, nsec = 0\<rparr>,
                liveliness = 1, liveliness_lease_duration = \<lparr>sec = 0, nsec = 0\<rparr>\<rparr>\<rparr>\<rparr>))"
proof -
  let ?ni = "\<lparr>node_domain_id = 42, node_ns = ''/robot1'', node_name = ''talker'',
    node_enclave = ''/enclave''\<rparr>"
  let ?q = "\<lparr>history = 2, depth = 10, reliability = 2, durability = 1,
    deadline = \<lparr>sec = 5, nsec = 0\<rparr>, lifespan = \<lparr>sec = 0, nsec = 7\<rparr>,
    liveliness = 2, liveliness_lease_duration = \<lparr>sec = 1, nsec = 1\<rparr>\<rparr>"
  let ?tp = "\<lparr>topic_name = ''/chatter'', topic_type = ''std_msgs::msg::String'',
    topic_qos = ?q\<rparr>"
  have t: "Publisher \<in> fst ` set entity_to_str"
    by (simp add: entity_to_str_def)
  have eid: "''q1w2e3r4t5y6'' \<noteq> []" "CHR ''/'' \<notin> set ''q1w2e3r4t5y6''"
    by simp_all
  have ns: "node_ns ?ni = ''/''
      \<or> (\<exists>s. node_ns ?ni = CHR ''/'' # s \<and> s \<noteq> [] \<and> s \<noteq> ''_'' \<and> CHR ''/'' \<notin> set s)"
    by simp
  have name: "node_name ?ni \<noteq> []" "CHR ''%'' \<notin> set (node_name ?ni)"
    by simp_all
  have ti: "Publisher = Node \<longleftrightarrow> Some ?tp = None"
    by simp
  have tp: "\<forall>tp. Some ?tp = Some tp \<longrightarrow>
      topic_name tp \<noteq> [] \<and> CHR ''%'' \<notin> set (topic_name tp)
      \<and> topic_type tp \<noteq> [] \<and> CHR ''/'' \<notin> set (topic_type tp)
      \<and> reliability (topic_qos tp) \<in> snd ` set str_to_qos_reliability
      \<and> durability (topic_qos tp) \<in> snd ` set str_to_qos_durability
      \<and> history (topic_qos tp) \<in> snd ` set str_to_qos_history"
    by (auto simp: str_to_qos_reliability_def str_to_qos_durability_def
        str_to_qos_history_def qos_enum_defs)
  from Entity_ctor_make_roundtrip [OF t eid ns name ti tp] show ?thesis
    by (simp add: decoded_defaults_def RMW_QOS_DEADLINE_DEFAULT_def
        RMW_QOS_LIFESPAN_DEFAULT_def RMW_QOS_POLICY_LIVELINESS_AUTOMATIC_def
        RMW_QOS_LIVELINESS_LEASE_DURATION_DEFAULT_def)
qed

text \<open>
  Claim C1. The facts below are valid: the type is Node, the namespace \<open>/a/b\<close> and the
  node name \<open>n\<close> are not empty and have no \<open>%\<close>, and there is no topic information. The
  factory accepts them, and the constructor writes the namespace as it is, where it
  mangles the names, so that the key expression has 7 segments and not the fixed number
  that the comment in the constructor promises. \<open>Entity_make\<close> on that key expression
  returns another entity: the node \<open>b\<close> in the namespace \<open>/a\<close>.
\<close>

theorem nested_namespace_not_read_back:
  "Entity_make_zid [1, 2, 3, 4, 5, 6, 7, 8, 9, 10, 11, 12, 13, 14, 15, 16] Node
      \<lparr>node_domain_id = 0, node_ns = ''/a/b'', node_name = ''n'', node_enclave = []\<rparr> None
     = Inr (Some \<lparr>entity_id = ''123456789abcdef10'', entity_type = Node,
         entity_node_info = \<lparr>node_domain_id = 0, node_ns = ''/a/b'', node_name = ''n'',
           node_enclave = []\<rparr>,
         entity_topic_info = None,
         entity_keyexpr = ''@ros2_lv/0/123456789abcdef10/NN/a/b/n''\<rparr>)
   \<and> length (key_parts ''@ros2_lv/0/123456789abcdef10/NN/a/b/n'') = 7
   \<and> Entity_make ''@ros2_lv/0/123456789abcdef10/NN/a/b/n''
     = Inr (Some \<lparr>entity_id = ''123456789abcdef10'', entity_type = Node,
         entity_node_info = \<lparr>node_domain_id = 0, node_ns = ''/a'', node_name = ''b'',
           node_enclave = []\<rparr>,
         entity_topic_info = None,
         entity_keyexpr = ''@ros2_lv/0/123456789abcdef10/NN/a/b''\<rparr>)"
  by code_simp

text \<open>
  Further facts that the constructor takes and that are not read back: a namespace
  without the leading slash, the namespace \<open>/_\<close>, an empty id and an empty topic name.
\<close>

lemma roundtrip_conditions_needed:
  "map_sum (\<lambda>x. x) (\<lambda>e. Entity_make (keyexpr e))
      (Entity_ctor ''id'' Node
        \<lparr>node_domain_id = 0, node_ns = ''ns'', node_name = ''n'', node_enclave = []\<rparr> None)
     = Inr (Inr None)"
  "map_sum (\<lambda>x. x) (\<lambda>e. map_sum (\<lambda>x. x) (map_option (\<lambda>e. node_ns (entity_node_info e)))
        (Entity_make (keyexpr e)))
      (Entity_ctor ''id'' Node
        \<lparr>node_domain_id = 0, node_ns = ''/_'', node_name = ''n'', node_enclave = []\<rparr> None)
     = Inr (Inr (Some ''/''))"
  "map_sum (\<lambda>x. x) (\<lambda>e. Entity_make (keyexpr e))
      (Entity_ctor [] Node
        \<lparr>node_domain_id = 0, node_ns = ''/'', node_name = ''n'', node_enclave = []\<rparr> None)
     = Inr (Inr None)"
  "map_sum (\<lambda>x. x) (\<lambda>e. Entity_make (keyexpr e))
      (Entity_ctor ''id'' Publisher
        \<lparr>node_domain_id = 0, node_ns = ''/'', node_name = ''n'', node_enclave = []\<rparr>
        (Some \<lparr>topic_name = [], topic_type = ''T'',
           topic_qos = \<lparr>history = 1, depth = 1, reliability = 1, durability = 1,
             deadline = \<lparr>sec = 0, nsec = 0\<rparr>, lifespan = \<lparr>sec = 0, nsec = 0\<rparr>,
             liveliness = 1, liveliness_lease_duration = \<lparr>sec = 0, nsec = 0\<rparr>\<rparr>\<rparr>))
     = Inr (Inr None)"
  by code_simp+

end
